theory Spec2Isabelle
  imports
    Main
    "HOL-Library.Word"
    "HOL-Library.Char_ord"
    "HOL-Library.List_Lexorder"
    "HOL-Library.Multiset"
begin

unbundle bit_operations_syntax

section \<open>The fingerprint: xxHash64 over a msgpack array\<close>

text \<open>
  \<^verbatim>\<open>generate_hex\<close> calls \<^verbatim>\<open>xxhash.xxh64_hexdigest(msgspec.msgpack.encode(payload), seed=0)\<close>.
  The hash is the XXH64 algorithm on 64-bit words; the digest is rendered as 16 lowercase
  hexadecimal characters, most significant nibble first.
\<close>

type_synonym u64 = "64 word"
type_synonym byte = "8 word"

definition PRIME64_1 :: u64 where "PRIME64_1 = 0x9E3779B185EBCA87"
definition PRIME64_2 :: u64 where "PRIME64_2 = 0xC2B2AE3D27D4EB4F"
definition PRIME64_3 :: u64 where "PRIME64_3 = 0x165667B19E3779F9"
definition PRIME64_4 :: u64 where "PRIME64_4 = 0x85EBCA77C2B2AE63"
definition PRIME64_5 :: u64 where "PRIME64_5 = 0x27D4EB2F165667C5"

definition rotl64 :: "u64 \<Rightarrow> nat \<Rightarrow> u64" where
  "rotl64 x r = push_bit r x OR drop_bit (64 - r) x"

text \<open>Little-endian read of the bytes given (8 of them for a lane, 4 for the tail).\<close>

fun read_le :: "byte list \<Rightarrow> u64" where
  "read_le [] = 0"
| "read_le (b # bs) = ucast b OR push_bit 8 (read_le bs)"

definition xxh64_round :: "u64 \<Rightarrow> u64 \<Rightarrow> u64" where
  "xxh64_round acc inp = rotl64 (acc + inp * PRIME64_2) 31 * PRIME64_1"

definition xxh64_merge_round :: "u64 \<Rightarrow> u64 \<Rightarrow> u64" where
  "xxh64_merge_round acc val = (acc XOR xxh64_round 0 val) * PRIME64_1 + PRIME64_4"

function xxh64_stripes ::
  "u64 \<times> u64 \<times> u64 \<times> u64 \<Rightarrow> byte list \<Rightarrow> (u64 \<times> u64 \<times> u64 \<times> u64) \<times> byte list" where
  "xxh64_stripes (v1, v2, v3, v4) bs =
     (if 32 \<le> length bs
      then xxh64_stripes
             (xxh64_round v1 (read_le (take 8 bs)),
              xxh64_round v2 (read_le (take 8 (drop 8 bs))),
              xxh64_round v3 (read_le (take 8 (drop 16 bs))),
              xxh64_round v4 (read_le (take 8 (drop 24 bs))))
             (drop 32 bs)
      else ((v1, v2, v3, v4), bs))"
  by pat_completeness auto
termination
  by (relation "measure (\<lambda>(_, bs). length bs)") auto

function xxh64_finalize :: "u64 \<Rightarrow> byte list \<Rightarrow> u64" where
  "xxh64_finalize h bs =
     (if 8 \<le> length bs
      then xxh64_finalize
             (rotl64 (h XOR xxh64_round 0 (read_le (take 8 bs))) 27 * PRIME64_1 + PRIME64_4)
             (drop 8 bs)
      else if 4 \<le> length bs
      then xxh64_finalize
             (rotl64 (h XOR read_le (take 4 bs) * PRIME64_1) 23 * PRIME64_2 + PRIME64_3)
             (drop 4 bs)
      else (case bs of
              [] \<Rightarrow> h
            | b # rest \<Rightarrow>
                xxh64_finalize (rotl64 (h XOR ucast b * PRIME64_5) 11 * PRIME64_1) rest))"
  by pat_completeness auto
termination
  by (relation "measure (\<lambda>(_, bs). length bs)") auto

definition xxh64_avalanche :: "u64 \<Rightarrow> u64" where
  "xxh64_avalanche h0 =
     (let h1 = (h0 XOR drop_bit 33 h0) * PRIME64_2;
          h2 = (h1 XOR drop_bit 29 h1) * PRIME64_3
      in h2 XOR drop_bit 32 h2)"

definition xxh64 :: "byte list \<Rightarrow> u64 \<Rightarrow> u64" where
  "xxh64 input seed =
     (let h = (if 32 \<le> length input
               then (case xxh64_stripes
                            (seed + PRIME64_1 + PRIME64_2, seed + PRIME64_2, seed, seed - PRIME64_1)
                            input of
                       ((v1, v2, v3, v4), _) \<Rightarrow>
                         xxh64_merge_round (xxh64_merge_round (xxh64_merge_round (xxh64_merge_round
                           (rotl64 v1 1 + rotl64 v2 7 + rotl64 v3 12 + rotl64 v4 18) v1) v2) v3) v4)
               else seed + PRIME64_5)
      in xxh64_avalanche
           (xxh64_finalize (h + of_nat (length input)) (drop (length input div 32 * 32) input)))"

definition hex_digit :: "nat \<Rightarrow> char" where
  "hex_digit n = ''0123456789abcdef'' ! (n mod 16)"

definition xxh64_hexdigest :: "byte list \<Rightarrow> u64 \<Rightarrow> string" where
  "xxh64_hexdigest input seed =
     map (\<lambda>i. hex_digit (unat (drop_bit (4 * (15 - i)) (xxh64 input seed) AND 15))) [0..<16]"

text \<open>
  \<^verbatim>\<open>msgspec.msgpack.encode\<close> of a list is the array header for its length followed by the
  encodings of its elements, one after the other (each element is self-delimiting).
  The header is fixarray up to 15 elements, array16 up to 65535, array32 beyond.
  discord.py bounds the number of registered commands far below \<open>2 ^ 32\<close>.
\<close>

definition msgpack_array_header :: "nat \<Rightarrow> byte list" where
  "msgpack_array_header n =
     (if n < 16 then [0x90 OR of_nat n]
      else if n < 65536 then [0xdc, of_nat (n div 256), of_nat n]
      else [0xdd, of_nat (n div 16777216), of_nat (n div 65536), of_nat (n div 256), of_nat n])"

definition msgpack_encode_list :: "byte list list \<Rightarrow> byte list" where
  "msgpack_encode_list elems = msgpack_array_header (length elems) @ concat elems"

section \<open>Data model of \<^verbatim>\<open>autosync.py\<close>\<close>

text \<open>
  A command, as far as \<^verbatim>\<open>generate_hex\<close> looks at it: the sort key
  \<^verbatim>\<open>qualified_name\<close>, and the two payload producers of discord.py, each given by the
  msgpack encoding of the dictionary it returns (\<^verbatim>\<open>to_dict(tree)\<close>, and
  \<^verbatim>\<open>get_translated_payload(tree, translator)\<close> for the tree's translator).
\<close>

record command =
  qualified_name :: string
  to_dict :: "byte list"
  get_translated_payload :: "byte list"

text \<open>\<^verbatim>\<open>class SavedConfig(TypedDict)\<close>; the fallback dictionary holds \<^verbatim>\<open>None\<close> in both.\<close>

record SavedConfig =
  last_timestamp :: "int option"
  last_hex :: "string option"

text \<open>
  The backing file. Its content is either not decodable at all (bytes that are not UTF-8,
  text that is not JSON), a JSON value that is not an object, or a JSON object.
  \<^verbatim>\<open>msgspec.json.decode(content, type=SavedConfig)\<close> accepts an object that has an integer
  under \<^verbatim>\<open>last_timestamp\<close> and a string under \<^verbatim>\<open>last_hex\<close> (both keys are required by the
  TypedDict, other keys are ignored) and raises on everything else.
\<close>

datatype json_value = JNull | JBool bool | JInt int | JStr string | JOther

datatype file_content = NotJson | JsonNonObject | JsonObject "string \<rightharpoonup> json_value"

definition json_decode :: "file_content \<Rightarrow> SavedConfig option" where
  "json_decode content =
     (case content of
        JsonObject m \<Rightarrow>
          (case m ''last_timestamp'' of
             Some (JInt t) \<Rightarrow>
               (case m ''last_hex'' of
                  Some (JStr h) \<Rightarrow> Some \<lparr>last_timestamp = Some t, last_hex = Some h\<rparr>
                | _ \<Rightarrow> None)
           | _ \<Rightarrow> None)
      | _ \<Rightarrow> None)"

definition json_encode :: "SavedConfig \<Rightarrow> file_content" where
  "json_encode c =
     JsonObject
       [''last_hex'' \<mapsto> (case last_hex c of None \<Rightarrow> JNull | Some h \<Rightarrow> JStr h),
        ''last_timestamp'' \<mapsto> (case last_timestamp c of None \<Rightarrow> JNull | Some t \<Rightarrow> JInt t)]"

text \<open>
  A path is the pair of \<^verbatim>\<open>self.__directory\<close> and the file name joined to it. The file system
  maps paths to contents and records which directories exist; the three sets say where
  the operating system refuses \<^verbatim>\<open>mkdir\<close>, \<^verbatim>\<open>read_text\<close> and \<^verbatim>\<open>write_text\<close>.
\<close>

type_synonym path = "string \<times> string"

record filesystem =
  files :: "path \<rightharpoonup> file_content"
  dirs :: "string set"
  mkdir_denied :: "string set"
  read_denied :: "path set"
  write_denied :: "path set"

datatype error =
    OSError
  | DecodeError
  | DateRangeError
  | TransportError string

datatype log_entry =
    DebugChangeDirectory string string
  | DebugChangeFilename string string
  | InfoLoaded path
  | WarningLoadFailed path error
  | InfoUpdating string
  | InfoCheckingCanSync
  | InfoCanSyncNoGate
  | InfoCanSync bool
  | InfoCheckingSync
  | WarningHexLength nat nat
  | InfoNeedSync bool
  | InfoSynced nat

text \<open>
  One \<^verbatim>\<open>AutoSyncTree\<close> with its \<^verbatim>\<open>SaveConfig\<close>, the disk and the logger. Times are integers:
  a \<^verbatim>\<open>datetime\<close> is its number of microseconds since the epoch, a \<^verbatim>\<open>timedelta\<close> its number
  of microseconds. \<open>all_commands s guild\<close> is what \<^verbatim>\<open>self._get_all_commands(guild=guild)\<close>
  returns, in its order. \<open>transport_calls\<close> counts the calls of \<^verbatim>\<open>super().sync\<close>.
\<close>

record state =
  directory :: string
  filename :: string
  path_cache :: "path option"
  config :: "SavedConfig option"
  minimal_sync_interval :: "int option"
  current_hex :: "string option"
  translator :: bool
  all_commands :: "nat option \<Rightarrow> command list"
  fs :: filesystem
  log :: "log_entry list"
  transport_calls :: nat

section \<open>\<^verbatim>\<open>SaveConfig\<close>\<close>

definition write_text :: "path \<Rightarrow> file_content \<Rightarrow> filesystem \<Rightarrow> (error + unit) \<times> filesystem" where
  "write_text p c f =
     (if p \<in> write_denied f then (Inl OSError, f)
      else (Inr (), f\<lparr>files := (files f)(p \<mapsto> c)\<rparr>))"

definition read_text :: "path \<Rightarrow> filesystem \<Rightarrow> error + file_content" where
  "read_text p f =
     (if p \<in> read_denied f then Inl OSError
      else (case files f p of None \<Rightarrow> Inl OSError | Some c \<Rightarrow> Inr c))"

definition ensure_path_exists :: "path \<Rightarrow> filesystem \<Rightarrow> (error + unit) \<times> filesystem" where
  "ensure_path_exists p f =
     (if fst p \<in> mkdir_denied f then (Inl OSError, f)
      else (let f1 = f\<lparr>dirs := insert (fst p) (dirs f)\<rparr>
            in (case files f1 p of
                  None \<Rightarrow> write_text p (JsonObject Map.empty) f1
                | Some _ \<Rightarrow> (Inr (), f1))))"

text \<open>The property \<^verbatim>\<open>path\<close>: the cache is filled before the file is ensured to exist.\<close>

definition path_prop :: "state \<Rightarrow> (error + path) \<times> state" where
  "path_prop s =
     (case path_cache s of
        Some p \<Rightarrow> (Inr p, s)
      | None \<Rightarrow>
          (let p = (directory s, filename s @ ''.json'');
               s1 = s\<lparr>path_cache := Some p\<rparr>
           in (case ensure_path_exists p (fs s1) of
                 (Inl e, f) \<Rightarrow> (Inl e, s1\<lparr>fs := f\<rparr>)
               | (Inr _, f) \<Rightarrow> (Inr p, s1\<lparr>fs := f\<rparr>))))"




text \<open>
  The handler of \<^verbatim>\<open>get_config\<close> formats \<^verbatim>\<open>self.path\<close> into the warning, so the property
  is read once more there; an exception of that read would leave \<^verbatim>\<open>get_config\<close>.
\<close>

definition load_failed :: "error \<Rightarrow> state \<Rightarrow> (error + SavedConfig) \<times> state" where
  "load_failed e s =
     (case path_prop s of
        (Inl e', s1) \<Rightarrow> (Inl e', s1)
      | (Inr p, s1) \<Rightarrow>
          (let c = \<lparr>last_timestamp = None, last_hex = None\<rparr>
           in (Inr c, s1\<lparr>log := log s1 @ [WarningLoadFailed p e], config := Some c\<rparr>)))"

text \<open>
  The \<^verbatim>\<open>try\<close> block covers the read of \<^verbatim>\<open>self.path\<close>, \<^verbatim>\<open>read_text\<close> and the decoding;
  the handler catches every \<^verbatim>\<open>Exception\<close>.
\<close>

definition get_config :: "bool \<Rightarrow> state \<Rightarrow> (error + SavedConfig) \<times> state" where
  "get_config force_reload s =
     (case (if force_reload then None else config s) of
        Some c \<Rightarrow> (Inr c, s)
      | None \<Rightarrow>
          (case path_prop s of
             (Inl e, s1) \<Rightarrow> load_failed e s1
           | (Inr p, s1) \<Rightarrow>
               (case read_text p (fs s1) of
                  Inl e \<Rightarrow> load_failed e s1
                | Inr content \<Rightarrow>
                    (case json_decode content of
                       None \<Rightarrow> load_failed DecodeError s1
                     | Some c \<Rightarrow>
                         (Inr c, s1\<lparr>config := Some c, log := log s1 @ [InfoLoaded p]\<rparr>)))))"

text \<open>
  \<^verbatim>\<open>int(discord.utils.utcnow().timestamp())\<close>: whole seconds, truncated towards zero.
\<close>

definition timestamp_seconds :: "int \<Rightarrow> int" where
  "timestamp_seconds now = (if 0 \<le> now then now div 1000000 else - ((- now) div 1000000))"

text \<open>
  \<^verbatim>\<open>_update\<close> assigns into the dictionary that \<^verbatim>\<open>get_config\<close> returned, which is the object
  \<^verbatim>\<open>self._config\<close> refers to: the cached state has the new values before the file is written.
\<close>

definition SaveConfig_update :: "int \<Rightarrow> string \<Rightarrow> state \<Rightarrow> (error + unit) \<times> state" where
  "SaveConfig_update now new_hex s =
     (case get_config False s of
        (Inl e, s1) \<Rightarrow> (Inl e, s1)
      | (Inr c, s1) \<Rightarrow>
          (let c' = c\<lparr>last_hex := Some new_hex, last_timestamp := Some (timestamp_seconds now)\<rparr>;
               s2 = s1\<lparr>log := log s1 @ [InfoUpdating new_hex], config := Some c'\<rparr>
           in (case path_prop s2 of
                 (Inl e, s3) \<Rightarrow> (Inl e, s3)
               | (Inr p, s3) \<Rightarrow>
                   (case write_text p (json_encode c') (fs s3) of
                      (Inl e, f) \<Rightarrow> (Inl e, s3\<lparr>fs := f\<rparr>)
                    | (Inr _, f) \<Rightarrow> (Inr (), s3\<lparr>fs := f, config := Some c'\<rparr>)))))"

text \<open>
  \<^verbatim>\<open>datetime.fromtimestamp(t, tz=utc)\<close> exists for the years 1 to 9999 only and raises
  outside; so does the sum of a \<^verbatim>\<open>datetime\<close> and a \<^verbatim>\<open>timedelta\<close>.
\<close>

definition MIN_TIMESTAMP :: int where "MIN_TIMESTAMP = - 62135596800"
definition MAX_TIMESTAMP :: int where "MAX_TIMESTAMP = 253402300799"

definition fromtimestamp :: "int \<Rightarrow> error + int" where
  "fromtimestamp t =
     (if MIN_TIMESTAMP \<le> t \<and> t \<le> MAX_TIMESTAMP then Inr (t * 1000000) else Inl DateRangeError)"

definition datetime_add :: "int \<Rightarrow> int \<Rightarrow> error + int" where
  "datetime_add d delta =
     (if MIN_TIMESTAMP * 1000000 \<le> d + delta \<and> d + delta \<le> MAX_TIMESTAMP * 1000000 + 999999
      then Inr (d + delta) else Inl DateRangeError)"

definition last_synced_at :: "state \<Rightarrow> (error + int option) \<times> state" where
  "last_synced_at s =
     (case get_config False s of
        (Inl e, s1) \<Rightarrow> (Inl e, s1)
      | (Inr c, s1) \<Rightarrow>
          (case last_timestamp c of
             None \<Rightarrow> (Inr None, s1)
           | Some t \<Rightarrow>
               if t = 0 then (Inr None, s1)
               else (case fromtimestamp t of
                       Inl e \<Rightarrow> (Inl e, s1)
                     | Inr d \<Rightarrow> (Inr (Some d), s1))))"

definition last_hex_prop :: "state \<Rightarrow> (error + string option) \<times> state" where
  "last_hex_prop s =
     (case get_config False s of
        (Inl e, s1) \<Rightarrow> (Inl e, s1)
      | (Inr c, s1) \<Rightarrow> (Inr (last_hex c), s1))"

section \<open>\<^verbatim>\<open>AutoSyncTree\<close>\<close>

definition can_sync :: "int \<Rightarrow> state \<Rightarrow> (error + bool) \<times> state" where
  "can_sync now s =
     (case last_synced_at s of
        (Inl e, s1) \<Rightarrow> (Inl e, s1)
      | (Inr last_sync, s1) \<Rightarrow>
          (let s2 = s1\<lparr>log := log s1 @ [InfoCheckingCanSync]\<rparr>
           in (case minimal_sync_interval s2 of
                 None \<Rightarrow> (Inr True, s2\<lparr>log := log s2 @ [InfoCanSyncNoGate]\<rparr>)
               | Some interval \<Rightarrow>
                   (case last_sync of
                      None \<Rightarrow> (Inr True, s2\<lparr>log := log s2 @ [InfoCanSyncNoGate]\<rparr>)
                    | Some l \<Rightarrow>
                        (let res = (interval \<le> now - l)
                         in (case datetime_add l interval of
                               Inl e \<Rightarrow> (Inl e, s2)
                             | Inr next_sync \<Rightarrow>
                                 (Inr res, s2\<lparr>log := log s2 @ [InfoCanSync res]\<rparr>)))))))"

definition generate_hex :: "nat option \<Rightarrow> state \<Rightarrow> string \<times> state" where
  "generate_hex guild s =
     (let commands = sort_key qualified_name (all_commands s guild);
          payload = (if translator s then map get_translated_payload commands
                     else map to_dict commands);
          h = xxh64_hexdigest (msgpack_encode_list payload) 0
      in (h, s\<lparr>current_hex := Some h\<rparr>))"

definition should_sync :: "int \<Rightarrow> state \<Rightarrow> (error + bool) \<times> state" where
  "should_sync now s =
     (case can_sync now (s\<lparr>log := log s @ [InfoCheckingSync]\<rparr>) of
        (Inl e, s1) \<Rightarrow> (Inl e, s1)
      | (Inr False, s1) \<Rightarrow> (Inr False, s1)
      | (Inr True, s1) \<Rightarrow>
          (case last_hex_prop s1 of
             (Inl e, s2) \<Rightarrow> (Inl e, s2)
           | (Inr lh, s2) \<Rightarrow>
               (case generate_hex None s2 of
                  (cur, s3) \<Rightarrow>
                    (let s4 = (case lh of
                                 None \<Rightarrow> s3
                               | Some h \<Rightarrow>
                                   if h \<noteq> [] \<and> length h \<noteq> length cur
                                   then s3\<lparr>log := log s3 @ [WarningHexLength (length h) (length cur)]\<rparr>
                                   else s3);
                         res = (lh \<noteq> Some cur)
                     in (Inr res, s4\<lparr>log := log s4 @ [InfoNeedSync res]\<rparr>)))))"

text \<open>
  \<^verbatim>\<open>sync\<close>. The argument \<open>transport\<close> is \<^verbatim>\<open>super().sync\<close>, the remote call, with its
  outcome for this call; \<open>now\<close> is the clock read by the interval gate and \<open>now'\<close> the
  clock read by \<^verbatim>\<open>_update\<close>. The hex that is stored is \<^verbatim>\<open>self.current_hex\<close> unless that is
  \<^verbatim>\<open>None\<close> or empty.
\<close>

definition sync ::
  "int \<Rightarrow> int \<Rightarrow> (nat option \<Rightarrow> error + string list) \<Rightarrow> nat option \<Rightarrow> state
     \<Rightarrow> (error + string list) \<times> state" where
  "sync now now' transport guild s =
     (case should_sync now s of
        (Inl e, s1) \<Rightarrow> (Inl e, s1)
      | (Inr False, s1) \<Rightarrow> (Inr [], s1)
      | (Inr True, s1) \<Rightarrow>
          (let s2 = s1\<lparr>transport_calls := Suc (transport_calls s1)\<rparr>
           in (case transport guild of
                 Inl e \<Rightarrow> (Inl e, s2)
               | Inr synced_commands \<Rightarrow>
                   (case (case current_hex s2 of
                            None \<Rightarrow> generate_hex guild s2
                          | Some h \<Rightarrow> if h \<noteq> [] then (h, s2) else generate_hex guild s2) of
                      (new_hex, s3) \<Rightarrow>
                        (case SaveConfig_update now' new_hex s3 of
                           (Inl e, s4) \<Rightarrow> (Inl e, s4)
                         | (Inr _, s4) \<Rightarrow>
                             (Inr synced_commands,
                              s4\<lparr>log := log s4 @ [InfoSynced (length synced_commands)]\<rparr>))))))"

text \<open>
  Construction: \<^verbatim>\<open>SaveConfig.__init__\<close> ends with \<^verbatim>\<open>get_config(force_reload=True)\<close>;
  \<^verbatim>\<open>AutoSyncTree.__init__\<close> takes the interval as given, 300 seconds when the argument
  is missing.
\<close>

datatype interval_arg = MISSING | NoInterval | Timedelta int

definition DEFAULT_MINIMAL_SYNC_INTERVAL_SECONDS :: int where
  "DEFAULT_MINIMAL_SYNC_INTERVAL_SECONDS = 300"

definition interval_of :: "interval_arg \<Rightarrow> int option" where
  "interval_of a =
     (case a of
        NoInterval \<Rightarrow> None
      | MISSING \<Rightarrow> Some (DEFAULT_MINIMAL_SYNC_INTERVAL_SECONDS * 1000000)
      | Timedelta d \<Rightarrow> Some d)"

definition AutoSyncTree_init ::
  "string \<Rightarrow> string \<Rightarrow> interval_arg \<Rightarrow> bool \<Rightarrow> (nat option \<Rightarrow> command list) \<Rightarrow> filesystem \<Rightarrow> state" where
  "AutoSyncTree_init dir name interval tr cmds f =
     snd (get_config True
            \<lparr>directory = dir, filename = name, path_cache = None, config = None,
             minimal_sync_interval = interval_of interval, current_hex = None,
             translator = tr, all_commands = cmds, fs = f, log = [], transport_calls = 0\<rparr>)"

section \<open>\<^verbatim>\<open>debugger.py\<close>\<close>

text \<open>
  discord.py's \<^verbatim>\<open>AppInstallationType\<close> and \<^verbatim>\<open>AppCommandContext\<close> keep each flag as
  \<^verbatim>\<open>Optional[bool]\<close> in a private field (\<^verbatim>\<open>_guild\<close>, \<^verbatim>\<open>_user\<close>, \<^verbatim>\<open>_dm_channel\<close>,
  \<^verbatim>\<open>_private_channel\<close>); the public property of the same name is \<^verbatim>\<open>bool\<close> of the field.
\<close>

record AppInstallationType =
  raw_guild :: "bool option"
  raw_user :: "bool option"

record AppCommandContext =
  raw_ctx_guild :: "bool option"
  raw_dm_channel :: "bool option"
  raw_private_channel :: "bool option"

definition py_bool :: "bool option \<Rightarrow> bool" where
  "py_bool v = (v = Some True)"

record CommandT =
  name :: string
  allowed_installs :: "AppInstallationType option"
  allowed_contexts :: "AppCommandContext option"

record DebugableCommand =
  command :: CommandT
  is_guild_installable :: bool
  is_user_installable :: bool
  is_guild_usable :: bool
  is_dm_usable :: bool
  is_private_channel_usable :: bool

datatype IntegrationTypeConfig = IntegrationTypeConfig

record AppInfo =
  app_id :: nat
  guild_integration_config :: "IntegrationTypeConfig option"
  user_integration_config :: "IntegrationTypeConfig option"

datatype validation =
    GuildInstallable string
  | UserInstallable string
  | GuildUsable string
  | DMUsable string
  | PrivateChannelUsable string
  | UnknownGuild nat
  | NotInstalled nat
  | NoCommands "nat option"

datatype derror = ValueError validation | HTTPException | FileError

record Integration =
  is_bot_integration :: bool
  integration_application_id :: nat

record Guild =
  guild_id :: nat
  integrations :: "derror + Integration list"

datatype guild_arg = Object nat | GuildArg Guild

definition id_of :: "guild_arg \<Rightarrow> nat" where
  "id_of g = (case g of Object i \<Rightarrow> i | GuildArg x \<Rightarrow> guild_id x)"

text \<open>
  The client and the tree the debugger looks at, and which steps of the report fail with an
  \<^verbatim>\<open>OSError\<close>: opening \<^verbatim>\<open>debug_info.json\<close> for writing, \<^verbatim>\<open>json.dump\<close> into it, and \<^verbatim>\<open>print\<close>.
\<close>

record client =
  client_application :: "AppInfo option"
  application_info :: "derror + AppInfo"
  get_guild :: "nat \<Rightarrow> Guild option"
  intents_guilds :: bool
  fetch_guild :: "nat \<Rightarrow> derror + Guild"
  get_commands :: "nat option \<Rightarrow> CommandT list"
  open_denied :: bool
  dump_denied :: bool
  print_denied :: bool

record bot_flags =
  guild_installable :: bool
  user_installable :: bool
  guild_usable :: bool
  dm_usable :: bool
  private_channel_usable :: bool

text \<open>
  The file \<^verbatim>\<open>debug_info.json\<close>: not touched by \<^verbatim>\<open>check\<close>, opened for writing (which truncates
  it) and not completely written, or holding the report.
\<close>

datatype report_file =
    NoReportFile
  | PartialReportFile
  | ReportFile "bot_flags \<times> DebugableCommand list"

text \<open>
  The debugger, with the two outputs of \<^verbatim>\<open>check\<close>: the file \<^verbatim>\<open>debug_info.json\<close> and what was
  printed.
\<close>

record debugger =
  global_allowed_contexts :: AppCommandContext
  global_allowed_installs :: AppInstallationType
  application :: "AppInfo option"
  app_user_installable :: "IntegrationTypeConfig option"
  app_guild_installable :: "IntegrationTypeConfig option"
  debug_info_json :: report_file
  printed :: "(bot_flags \<times> DebugableCommand list) list"

definition store_application :: "client \<Rightarrow> debugger \<Rightarrow> (derror + AppInfo) \<times> debugger" where
  "store_application cl d =
     (case (case application d of
              Some a \<Rightarrow> Inr a
            | None \<Rightarrow> (case client_application cl of
                         Some a \<Rightarrow> Inr a
                       | None \<Rightarrow> application_info cl)) of
        Inl e \<Rightarrow> (Inl e, d)
      | Inr a \<Rightarrow>
          (Inr a, d\<lparr>application := Some a,
                    app_guild_installable := guild_integration_config a,
                    app_user_installable := user_integration_config a\<rparr>))"

definition is_bot_guild_installable :: "debugger \<Rightarrow> bool" where
  "is_bot_guild_installable d =
     (if raw_guild (global_allowed_installs d) \<noteq> None
      then py_bool (raw_guild (global_allowed_installs d))
      else if app_guild_installable d \<noteq> None then True
      else py_bool (raw_guild (global_allowed_installs d)))"

definition is_bot_user_installable :: "debugger \<Rightarrow> bool" where
  "is_bot_user_installable d =
     (if raw_user (global_allowed_installs d) \<noteq> None
      then py_bool (raw_user (global_allowed_installs d))
      else if app_user_installable d \<noteq> None then True
      else py_bool (raw_user (global_allowed_installs d)))"

definition is_bot_guild_usable :: "debugger \<Rightarrow> bool" where
  "is_bot_guild_usable d =
     (if raw_ctx_guild (global_allowed_contexts d) \<noteq> None
      then py_bool (raw_ctx_guild (global_allowed_contexts d)) else True)"

definition is_bot_dm_usable :: "debugger \<Rightarrow> bool" where
  "is_bot_dm_usable d =
     (if raw_dm_channel (global_allowed_contexts d) \<noteq> None
      then py_bool (raw_dm_channel (global_allowed_contexts d)) else True)"

definition is_bot_private_channel_usable :: "debugger \<Rightarrow> bool" where
  "is_bot_private_channel_usable d =
     (if raw_private_channel (global_allowed_contexts d) \<noteq> None
      then py_bool (raw_private_channel (global_allowed_contexts d)) else True)"

definition is_command_guild_installable :: "CommandT \<Rightarrow> bool" where
  "is_command_guild_installable c =
     (case allowed_installs c of Some a \<Rightarrow> py_bool (raw_guild a) | None \<Rightarrow> True)"

definition is_command_user_installable :: "CommandT \<Rightarrow> bool" where
  "is_command_user_installable c =
     (case allowed_installs c of Some a \<Rightarrow> py_bool (raw_user a) | None \<Rightarrow> False)"

definition is_command_guild_usable :: "CommandT \<Rightarrow> bool" where
  "is_command_guild_usable c =
     (case allowed_contexts c of Some a \<Rightarrow> py_bool (raw_ctx_guild a) | None \<Rightarrow> True)"

definition is_command_dm_usable :: "CommandT \<Rightarrow> bool" where
  "is_command_dm_usable c =
     (case allowed_contexts c of Some a \<Rightarrow> py_bool (raw_dm_channel a) | None \<Rightarrow> True)"

definition is_command_private_channel_usable :: "CommandT \<Rightarrow> bool" where
  "is_command_private_channel_usable c =
     (case allowed_contexts c of Some a \<Rightarrow> py_bool (raw_private_channel a) | None \<Rightarrow> False)"

definition check_command :: "debugger \<Rightarrow> CommandT \<Rightarrow> derror + DebugableCommand" where
  "check_command d c =
     (if is_command_guild_installable c \<and> \<not> is_bot_guild_installable d
      then Inl (ValueError (GuildInstallable (name c)))
      else if is_command_user_installable c \<and> \<not> is_bot_user_installable d
      then Inl (ValueError (UserInstallable (name c)))
      else if is_command_guild_usable c \<and> \<not> is_bot_guild_usable d
      then Inl (ValueError (GuildUsable (name c)))
      else if is_command_dm_usable c \<and> \<not> is_bot_dm_usable d
      then Inl (ValueError (DMUsable (name c)))
      else if is_command_private_channel_usable c \<and> \<not> is_bot_private_channel_usable d
      then Inl (ValueError (PrivateChannelUsable (name c)))
      else Inr \<lparr>command = c,
                is_guild_installable = is_command_guild_installable c,
                is_user_installable = is_command_user_installable c,
                is_guild_usable = is_command_guild_usable c,
                is_dm_usable = is_command_dm_usable c,
                is_private_channel_usable = is_command_private_channel_usable c\<rparr>)"

text \<open>The block under \<^verbatim>\<open>if guild:\<close> of \<^verbatim>\<open>check\<close>: the guild is known and the bot is installed in it.\<close>

definition check_guild :: "client \<Rightarrow> AppInfo \<Rightarrow> guild_arg \<Rightarrow> derror + unit" where
  "check_guild cl app g =
     (case (case (case g of Object i \<Rightarrow> get_guild cl i | GuildArg x \<Rightarrow> Some x) of
              Some x \<Rightarrow> Inr (Some x)
            | None \<Rightarrow>
                if \<not> intents_guilds cl
                then (case fetch_guild cl (id_of g) of Inl e \<Rightarrow> Inl e | Inr x \<Rightarrow> Inr (Some x))
                else Inr None) of
        Inl e \<Rightarrow> Inl e
      | Inr None \<Rightarrow> Inl (ValueError (UnknownGuild (id_of g)))
      | Inr (Some guild_object) \<Rightarrow>
          (case integrations guild_object of
             Inl e \<Rightarrow> Inl e
           | Inr is \<Rightarrow>
               (case find (\<lambda>i. is_bot_integration i \<and> integration_application_id i = app_id app) is of
                  None \<Rightarrow> Inl (ValueError (NotInstalled (id_of g)))
                | Some _ \<Rightarrow> Inr ())))"

text \<open>The \<^verbatim>\<open>for\<close> loop of \<^verbatim>\<open>check\<close>: the first exception of \<^verbatim>\<open>check_command\<close> ends it.\<close>

fun check_commands :: "debugger \<Rightarrow> CommandT list \<Rightarrow> derror + DebugableCommand list" where
  "check_commands d [] = Inr []"
| "check_commands d (c # cs) =
     (case check_command d c of
        Inl e \<Rightarrow> Inl e
      | Inr dc \<Rightarrow> (case check_commands d cs of Inl e \<Rightarrow> Inl e | Inr dcs \<Rightarrow> Inr (dc # dcs)))"

definition check :: "client \<Rightarrow> guild_arg option \<Rightarrow> debugger \<Rightarrow> (derror + unit) \<times> debugger" where
  "check cl guild d =
     (case store_application cl d of
        (Inl e, d1) \<Rightarrow> (Inl e, d1)
      | (Inr app, d1) \<Rightarrow>
          (case (case guild of None \<Rightarrow> Inr () | Some g \<Rightarrow> check_guild cl app g) of
             Inl e \<Rightarrow> (Inl e, d1)
           | Inr _ \<Rightarrow>
               (let commands = get_commands cl (map_option id_of guild)
                in if commands = [] then (Inl (ValueError (NoCommands (map_option id_of guild))), d1)
                   else (case check_commands d1 commands of
                           Inl e \<Rightarrow> (Inl e, d1)
                         | Inr debugable_commands \<Rightarrow>
                             (let debug_info =
                                    (\<lparr>guild_installable = is_bot_guild_installable d1,
                                      user_installable = is_bot_user_installable d1,
                                      guild_usable = is_bot_guild_usable d1,
                                      dm_usable = is_bot_dm_usable d1,
                                      private_channel_usable = is_bot_private_channel_usable d1\<rparr>,
                                     debugable_commands)
                              in if open_denied cl then (Inl FileError, d1)
                                 else if dump_denied cl
                                 then (Inl FileError, d1\<lparr>debug_info_json := PartialReportFile\<rparr>)
                                 else if print_denied cl
                                 then (Inl FileError,
                                       d1\<lparr>debug_info_json := ReportFile debug_info\<rparr>)
                                 else (Inr (),
                                       d1\<lparr>debug_info_json := ReportFile debug_info,
                                          printed := printed d1 @ [debug_info]\<rparr>))))))"

section \<open>Example configurations\<close>

text \<open>
  A disk with nothing on it, and a tree constructed on it in the directory \<^verbatim>\<open>bot\<close> under
  the default file name. \<open>report_user\<close> and \<open>report_message\<close> are a user context menu and
  a message context menu of the same name (their dictionaries differ in \<^verbatim>\<open>type\<close>);
  \<open>ban\<close> and \<open>kick\<close> are two slash commands.
\<close>

definition empty_fs :: filesystem where
  "empty_fs = \<lparr>files = Map.empty, dirs = {}, mkdir_denied = {}, read_denied = {}, write_denied = {}\<rparr>"

definition report_user :: command where
  "report_user =
     \<lparr>qualified_name = ''Report'',
      to_dict = [0x82, 0xa4, 0x6e, 0x61, 0x6d, 0x65, 0xa6, 0x52, 0x65, 0x70, 0x6f, 0x72, 0x74,
                 0xa4, 0x74, 0x79, 0x70, 0x65, 0x02],
      get_translated_payload = []\<rparr>"

definition report_message :: command where
  "report_message =
     \<lparr>qualified_name = ''Report'',
      to_dict = [0x82, 0xa4, 0x6e, 0x61, 0x6d, 0x65, 0xa6, 0x52, 0x65, 0x70, 0x6f, 0x72, 0x74,
                 0xa4, 0x74, 0x79, 0x70, 0x65, 0x03],
      get_translated_payload = []\<rparr>"

definition ban :: command where
  "ban =
     \<lparr>qualified_name = ''ban'',
      to_dict = [0x82, 0xa4, 0x6e, 0x61, 0x6d, 0x65, 0xa3, 0x62, 0x61, 0x6e,
                 0xa4, 0x74, 0x79, 0x70, 0x65, 0x01],
      get_translated_payload = []\<rparr>"

definition kick :: command where
  "kick =
     \<lparr>qualified_name = ''kick'',
      to_dict = [0x82, 0xa4, 0x6e, 0x61, 0x6d, 0x65, 0xa4, 0x6b, 0x69, 0x63, 0x6b,
                 0xa4, 0x74, 0x79, 0x70, 0x65, 0x01],
      get_translated_payload = []\<rparr>"

definition fresh_tree :: "interval_arg \<Rightarrow> command list \<Rightarrow> state" where
  "fresh_tree interval cmds =
     AutoSyncTree_init ''bot'' ''discord_py_autosync_config'' interval False (\<lambda>_. cmds) empty_fs"

text \<open>
  A disk on which the configuration file of that tree exists with the content given, and the
  tree constructed on it (the construction loads the file).
\<close>

definition disk_with :: "file_content \<Rightarrow> filesystem" where
  "disk_with c =
     \<lparr>files = [(''bot'', ''discord_py_autosync_config.json'') \<mapsto> c], dirs = {''bot''},
      mkdir_denied = {}, read_denied = {}, write_denied = {}\<rparr>"

definition loaded_tree :: "interval_arg \<Rightarrow> command list \<Rightarrow> file_content \<Rightarrow> state" where
  "loaded_tree interval cmds c =
     AutoSyncTree_init ''bot'' ''discord_py_autosync_config'' interval False (\<lambda>_. cmds) (disk_with c)"

text \<open>
  A tree without minimal interval that has the global command \<open>ban\<close> and, in the guild with
  id 7, the command \<open>kick\<close>: \<^verbatim>\<open>_get_all_commands(guild=g)\<close> returns the commands of the guild
  \<open>g\<close> only.
\<close>

definition scoped_tree :: state where
  "scoped_tree =
     AutoSyncTree_init ''bot'' ''discord_py_autosync_config'' NoInterval False
       (\<lambda>g. if g = Some 7 then [kick] else [ban]) empty_fs"

text \<open>
  For the debugger: a bot whose tree allows the guild installation and forbids the user
  installation and leaves the contexts unset, and three commands: \<open>ping\<close> declares nothing,
  \<open>profile\<close> and \<open>settings\<close> declare the user installation.
\<close>

definition example_app :: AppInfo where
  "example_app = \<lparr>app_id = 1, guild_integration_config = None, user_integration_config = None\<rparr>"

definition ping :: CommandT where
  "ping = \<lparr>name = ''ping'', allowed_installs = None, allowed_contexts = None\<rparr>"

definition profile :: CommandT where
  "profile =
     \<lparr>name = ''profile'',
      allowed_installs = Some \<lparr>raw_guild = Some True, raw_user = Some True\<rparr>,
      allowed_contexts = None\<rparr>"

definition settings :: CommandT where
  "settings =
     \<lparr>name = ''settings'',
      allowed_installs = Some \<lparr>raw_guild = Some False, raw_user = Some True\<rparr>,
      allowed_contexts = Some \<lparr>raw_ctx_guild = Some True, raw_dm_channel = Some True,
                               raw_private_channel = Some True\<rparr>\<rparr>"

definition example_client :: client where
  "example_client =
     \<lparr>client_application = Some example_app,
      application_info = Inl HTTPException,
      get_guild = (\<lambda>_. None),
      intents_guilds = True,
      fetch_guild = (\<lambda>_. Inl HTTPException),
      get_commands = (\<lambda>_. [ping, profile, settings]),
      open_denied = False,
      dump_denied = False,
      print_denied = False\<rparr>"

definition example_debugger :: debugger where
  "example_debugger =
     \<lparr>global_allowed_contexts =
        \<lparr>raw_ctx_guild = None, raw_dm_channel = None, raw_private_channel = None\<rparr>,
      global_allowed_installs = \<lparr>raw_guild = Some True, raw_user = Some False\<rparr>,
      application = None,
      app_user_installable = None,
      app_guild_installable = None,
      debug_info_json = NoReportFile,
      printed = []\<rparr>"

section \<open>Basic facts about the store\<close>

lemma path_prop_cached: "path_cache s = Some p \<Longrightarrow> path_prop s = (Inr p, s)"
  by (simp add: path_prop_def)

lemma path_prop_fills_cache: "\<exists>p. path_cache (snd (path_prop s)) = Some p"
  by (auto simp: path_prop_def Let_def split: option.splits prod.splits sum.splits)

lemma load_failed_cached:
  "path_cache s = Some p \<Longrightarrow>
   load_failed e s =
     (Inr \<lparr>last_timestamp = None, last_hex = None\<rparr>,
      s\<lparr>log := log s @ [WarningLoadFailed p e],
        config := Some \<lparr>last_timestamp = None, last_hex = None\<rparr>\<rparr>)"
  by (simp add: load_failed_def path_prop_cached Let_def)

lemma get_config_cached: "config s = Some c \<Longrightarrow> get_config False s = (Inr c, s)"
  by (simp add: get_config_def)

lemma get_config_returns:
  "\<exists>c. fst (get_config force_reload s) = Inr c \<and> config (snd (get_config force_reload s)) = Some c"
proof (cases "if force_reload then None else config s")
  case (Some c)
  then show ?thesis by (auto simp: get_config_def split: if_splits)
next
  case None
  obtain r s1 where ps: "path_prop s = (r, s1)" by (cases "path_prop s")
  obtain p where p: "path_cache s1 = Some p"
    using path_prop_fills_cache [of s] ps by auto
  show ?thesis
    using None ps p
    by (auto simp: get_config_def load_failed_cached split: sum.splits option.splits)
qed

lemma last_synced_at_cached:
  "config s = Some c \<Longrightarrow>
   last_synced_at s =
     ((case last_timestamp c of
         None \<Rightarrow> Inr None
       | Some t \<Rightarrow> if t = 0 then Inr None
                   else (case fromtimestamp t of Inl e \<Rightarrow> Inl e | Inr d \<Rightarrow> Inr (Some d))), s)"
  by (simp add: last_synced_at_def get_config_cached split: option.splits sum.splits)

lemma last_hex_prop_cached: "config s = Some c \<Longrightarrow> last_hex_prop s = (Inr (last_hex c), s)"
  by (simp add: last_hex_prop_def get_config_cached)

lemma can_sync_frame:
  "config s = Some c \<Longrightarrow> snd (can_sync now s) = s\<lparr>log := log (snd (can_sync now s))\<rparr>"
  by (auto simp: can_sync_def last_synced_at_cached Let_def split: option.splits sum.splits)

lemma can_sync_cong:
  assumes "config s = Some c" "config s' = Some c"
      and "minimal_sync_interval s' = minimal_sync_interval s"
  shows "fst (can_sync now s') = fst (can_sync now s)"
  using assms
  by (auto simp: can_sync_def last_synced_at_cached Let_def split: option.splits sum.splits)

lemma can_sync_mono:
  assumes "config s = Some c" "fst (can_sync now s) = Inr True" "now \<le> now2"
  shows "fst (can_sync now2 s) = Inr True"
  using assms
  by (auto simp: can_sync_def last_synced_at_cached Let_def split: option.splits sum.splits if_splits)

lemma generate_hex_frame: "snd (generate_hex g s) = s\<lparr>current_hex := Some (fst (generate_hex g s))\<rparr>"
  by (simp add: generate_hex_def Let_def)

lemma generate_hex_cong:
  "all_commands s' = all_commands s \<Longrightarrow> translator s' = translator s \<Longrightarrow>
   fst (generate_hex g s') = fst (generate_hex g s)"
  by (simp add: generate_hex_def Let_def)

lemma should_sync_cached:
  assumes "config s = Some c"
  shows "fst (should_sync now s) =
           (case fst (can_sync now s) of
              Inl e \<Rightarrow> Inl e
            | Inr False \<Rightarrow> Inr False
            | Inr True \<Rightarrow> Inr (last_hex c \<noteq> Some (fst (generate_hex None s))))"
proof -
  let ?s0 = "s\<lparr>log := log s @ [InfoCheckingSync]\<rparr>"
  have c0: "config ?s0 = Some c" using assms by simp
  have g: "fst (can_sync now ?s0) = fst (can_sync now s)"
    by (rule can_sync_cong [OF assms c0]) simp
  obtain r s1 where rs: "can_sync now ?s0 = (r, s1)" by (cases "can_sync now ?s0")
  have s1: "s1 = ?s0\<lparr>log := log s1\<rparr>"
    using can_sync_frame [OF c0, of now] rs by simp
  have r: "r = fst (can_sync now s)"
    using rs g by auto
  have c1: "config s1 = Some c" by (subst s1) (simp add: assms)
  have gh: "fst (generate_hex None s1) = fst (generate_hex None s)"
    by (rule generate_hex_cong; subst s1; simp)
  show ?thesis
    unfolding should_sync_def rs r [symmetric]
    by (cases r; simp add: last_hex_prop_cached [OF c1] gh [symmetric] Let_def split: prod.splits bool.splits)
qed

lemma should_sync_frame:
  assumes "config s = Some c"
  shows "snd (should_sync now s) =
           s\<lparr>log := log (snd (should_sync now s)),
             current_hex := current_hex (snd (should_sync now s))\<rparr>"
proof -
  let ?s0 = "s\<lparr>log := log s @ [InfoCheckingSync]\<rparr>"
  have c0: "config ?s0 = Some c" using assms by simp
  obtain r s1 where rs: "can_sync now ?s0 = (r, s1)" by (cases "can_sync now ?s0")
  define l where "l = log s1"
  have "s1 = ?s0\<lparr>log := log s1\<rparr>"
    using can_sync_frame [OF c0, of now] rs by simp
  then have s1: "s1 = s\<lparr>log := l\<rparr>" by (simp add: l_def)
  have c1: "config (s\<lparr>log := l\<rparr>) = Some c" by (simp add: assms)
  show ?thesis
    unfolding should_sync_def rs s1
    by (cases r; simp add: last_hex_prop_cached [OF c1] Let_def generate_hex_def
             split: prod.splits option.splits bool.splits)
qed

lemma path_prop_frame:
  "snd (path_prop s) = s\<lparr>path_cache := path_cache (snd (path_prop s)), fs := fs (snd (path_prop s))\<rparr>"
  by (auto simp: path_prop_def Let_def split: option.splits prod.splits sum.splits)

lemma get_config_frame:
  "snd (get_config b s) =
     s\<lparr>path_cache := path_cache (snd (get_config b s)),
       config := config (snd (get_config b s)),
       fs := fs (snd (get_config b s)),
       log := log (snd (get_config b s))\<rparr>"
proof (cases "if b then None else config s")
  case (Some c)
  then show ?thesis by (auto simp: get_config_def split: if_splits)
next
  case None
  obtain r s1 where ps: "path_prop s = (r, s1)" by (cases "path_prop s")
  define pc f where "pc = path_cache s1" and "f = fs s1"
  have s1: "s1 = s\<lparr>path_cache := pc, fs := f\<rparr>"
    using path_prop_frame [of s] ps by (simp add: pc_def f_def)
  obtain p where p: "pc = Some p"
    using path_prop_fills_cache [of s] ps by (auto simp: pc_def)
  have pcs: "path_cache (s\<lparr>path_cache := pc, fs := f\<rparr>) = Some p" by (simp add: p)
  show ?thesis
    using None unfolding get_config_def ps s1
    by (auto simp: load_failed_cached [OF pcs] split: sum.splits option.splits)
qed

lemma generate_hex_fst:
  "fst (generate_hex g s) =
     xxh64_hexdigest
       (msgpack_encode_list
          (map (if translator s then get_translated_payload else to_dict)
               (sort_key qualified_name (all_commands s g)))) 0"
  by (simp add: generate_hex_def Let_def)

lemma fresh_tree_fields:
  "all_commands (fresh_tree i cs) = (\<lambda>_. cs)"
  "translator (fresh_tree i cs) = False"
  "minimal_sync_interval (fresh_tree i cs) = interval_of i"
  "current_hex (fresh_tree i cs) = None"
  "transport_calls (fresh_tree i cs) = 0"
  unfolding fresh_tree_def AutoSyncTree_init_def
  by (subst get_config_frame, simp)+

lemma fresh_tree_config:
  "config (fresh_tree i cs) = Some \<lparr>last_timestamp = None, last_hex = None\<rparr>"
  by (simp add: fresh_tree_def AutoSyncTree_init_def get_config_def path_prop_def ensure_path_exists_def
      write_text_def read_text_def json_decode_def load_failed_def empty_fs_def Let_def)

section \<open>The fingerprint\<close>

lemma sorted_payload_perm:
  fixes f :: "'a \<Rightarrow> 'k::linorder"
  assumes m: "mset xs = mset ys"
      and same: "\<And>a b. a \<in> set xs \<Longrightarrow> b \<in> set xs \<Longrightarrow> f a = f b \<Longrightarrow> g a = g b"
  shows "map g (sort_key f xs) = map g (sort_key f ys)"
proof -
  define G where "G k = g (SOME a. a \<in> set xs \<and> f a = k)" for k
  have G: "g a = G (f a)" if "a \<in> set xs" for a
  proof -
    have "(SOME b. b \<in> set xs \<and> f b = f a) \<in> set xs \<and> f (SOME b. b \<in> set xs \<and> f b = f a) = f a"
      by (rule someI [of "\<lambda>b. b \<in> set xs \<and> f b = f a" a]) (simp add: that)
    then show ?thesis
      unfolding G_def using same [OF that] by metis
  qed
  have sets: "set ys = set xs"
    using m by (metis set_mset_mset)
  have keys: "map f (sort_key f zs) = sort (map f zs)" for zs :: "'a list"
    by (rule properties_for_sort [symmetric]) simp_all
  have "map g (sort_key f xs) = map G (map f (sort_key f xs))"
    by (simp add: G)
  also have "\<dots> = map G (sort (map f xs))"
    by (simp only: keys)
  also have "sort (map f xs) = sort (map f ys)"
    by (rule properties_for_sort) (simp_all add: m)
  also have "map G (sort (map f ys)) = map G (map f (sort_key f ys))"
    by (simp only: keys)
  also have "\<dots> = map g (sort_key f ys)"
    by (simp add: G sets)
  finally show ?thesis .
qed

lemma length_xxh64_hexdigest: "length (xxh64_hexdigest bs seed) = 16"
  by (simp add: xxh64_hexdigest_def)

lemma hex_digit_in: "hex_digit n \<in> set ''0123456789abcdef''"
proof -
  have "n mod 16 < length ''0123456789abcdef''" by simp
  then show ?thesis unfolding hex_digit_def by (rule nth_mem)
qed

lemma set_xxh64_hexdigest: "set (xxh64_hexdigest bs seed) \<subseteq> set ''0123456789abcdef''"
proof
  fix c
  assume "c \<in> set (xxh64_hexdigest bs seed)"
  then have "c \<in> (\<lambda>i. hex_digit (unat (drop_bit (4 * (15 - i)) (xxh64 bs seed) AND 15))) ` set [0..<16]"
    by (simp only: xxh64_hexdigest_def set_map)
  then obtain i where "c = hex_digit (unat (drop_bit (4 * (15 - i)) (xxh64 bs seed) AND 15))"
    by (rule imageE)
  then show "c \<in> set ''0123456789abcdef''"
    by (simp only: hex_digit_in)
qed

text \<open>
  Claim C1, as amended. \<^verbatim>\<open>generate_hex\<close> returns the same 16 lowercase hexadecimal characters
  on a command list and on every permutation of it, provided that commands which share a
  qualified name have equal payloads (in particular, whenever the qualified names are
  pairwise distinct). The sort by qualified name is stable, so commands with equal names
  keep the order in which they were given.
\<close>

theorem generate_hex_permutation:
  assumes perm: "mset (all_commands s' g) = mset (all_commands s g)"
      and tr: "translator s' = translator s"
      and same: "\<And>a b. a \<in> set (all_commands s g) \<Longrightarrow> b \<in> set (all_commands s g) \<Longrightarrow>
                   qualified_name a = qualified_name b \<Longrightarrow>
                   to_dict a = to_dict b \<and> get_translated_payload a = get_translated_payload b"
  shows "fst (generate_hex g s') = fst (generate_hex g s)
       \<and> length (fst (generate_hex g s)) = 16
       \<and> set (fst (generate_hex g s)) \<subseteq> set ''0123456789abcdef''"
proof -
  have m: "mset (all_commands s g) = mset (all_commands s' g)"
    by (rule perm [symmetric])
  have d: "map to_dict (sort_key qualified_name (all_commands s g))
         = map to_dict (sort_key qualified_name (all_commands s' g))"
  proof (rule sorted_payload_perm [OF m])
    fix a b
    assume "a \<in> set (all_commands s g)" "b \<in> set (all_commands s g)"
      and "qualified_name a = qualified_name b"
    then have "to_dict a = to_dict b \<and> get_translated_payload a = get_translated_payload b"
      by (rule same)
    then show "to_dict a = to_dict b" by (rule conjunct1)
  qed
  have t: "map get_translated_payload (sort_key qualified_name (all_commands s g))
         = map get_translated_payload (sort_key qualified_name (all_commands s' g))"
  proof (rule sorted_payload_perm [OF m])
    fix a b
    assume "a \<in> set (all_commands s g)" "b \<in> set (all_commands s g)"
      and "qualified_name a = qualified_name b"
    then have "to_dict a = to_dict b \<and> get_translated_payload a = get_translated_payload b"
      by (rule same)
    then show "get_translated_payload a = get_translated_payload b" by (rule conjunct2)
  qed
  have "fst (generate_hex g s') = fst (generate_hex g s)"
    by (cases "translator s") (simp_all only: generate_hex_fst tr d t if_True if_False)
  moreover have "length (fst (generate_hex g s)) = 16"
    by (simp only: generate_hex_fst length_xxh64_hexdigest)
  moreover have "set (fst (generate_hex g s)) \<subseteq> set ''0123456789abcdef''"
    by (simp only: generate_hex_fst set_xxh64_hexdigest)
  ultimately show ?thesis by blast
qed

theorem generate_hex_permutation_witness:
  "fst (generate_hex None (fresh_tree MISSING [kick, ban]))
     = fst (generate_hex None (fresh_tree MISSING [ban, kick]))
   \<and> length (fst (generate_hex None (fresh_tree MISSING [ban, kick]))) = 16
   \<and> set (fst (generate_hex None (fresh_tree MISSING [ban, kick]))) \<subseteq> set ''0123456789abcdef''"
proof -
  have h1: "mset (all_commands (fresh_tree MISSING [kick, ban]) None)
          = mset (all_commands (fresh_tree MISSING [ban, kick]) None)"
    by (simp add: fresh_tree_fields add.commute)
  have h2: "translator (fresh_tree MISSING [kick, ban]) = translator (fresh_tree MISSING [ban, kick])"
    by (simp add: fresh_tree_fields)
  have h3: "\<And>a b. a \<in> set (all_commands (fresh_tree MISSING [ban, kick]) None) \<Longrightarrow>
              b \<in> set (all_commands (fresh_tree MISSING [ban, kick]) None) \<Longrightarrow>
              qualified_name a = qualified_name b \<Longrightarrow>
              to_dict a = to_dict b \<and> get_translated_payload a = get_translated_payload b"
    by (auto simp: fresh_tree_fields ban_def kick_def)
  show ?thesis
    by (rule generate_hex_permutation [OF h1 h2 h3])
qed

text \<open>
  Without the proviso the claim fails: the two context menus named \<^verbatim>\<open>Report\<close> give different
  digests in their two orders.
\<close>

lemma sort_key_pair: "sort_key f [a, b] = (if f a \<le> f b then [a, b] else [b, a])"
  by simp

lemma qualified_name_report:
  "qualified_name report_user = ''Report''"
  "qualified_name report_message = ''Report''"
  by (simp_all add: report_user_def report_message_def)

lemma sort_report_um:
  "sort_key qualified_name [report_user, report_message] = [report_user, report_message]"
  by (simp only: sort_key_pair qualified_name_report order_refl if_True)

lemma sort_report_mu:
  "sort_key qualified_name [report_message, report_user] = [report_message, report_user]"
  by (simp only: sort_key_pair qualified_name_report order_refl if_True)

lemma hex_report_um:
  "xxh64_hexdigest (msgpack_encode_list [to_dict report_user, to_dict report_message]) 0
     = ''e53a87012644e87f''"
  by code_simp

lemma hex_report_mu:
  "xxh64_hexdigest (msgpack_encode_list [to_dict report_message, to_dict report_user]) 0
     = ''cf94c6115e6b052d''"
  by code_simp

theorem generate_hex_tie_counterexample:
  "mset [report_user, report_message] = mset [report_message, report_user]
   \<and> fst (generate_hex None (fresh_tree MISSING [report_user, report_message])) = ''e53a87012644e87f''
   \<and> fst (generate_hex None (fresh_tree MISSING [report_message, report_user])) = ''cf94c6115e6b052d''"
proof -
  have "mset [report_user, report_message] = mset [report_message, report_user]"
    by (simp add: add_mset_commute)
  moreover have "fst (generate_hex None (fresh_tree MISSING [report_user, report_message]))
                   = ''e53a87012644e87f''"
    by (simp only: generate_hex_fst fresh_tree_fields sort_report_um if_False list.map hex_report_um)
  moreover have "fst (generate_hex None (fresh_tree MISSING [report_message, report_user]))
                   = ''cf94c6115e6b052d''"
    by (simp only: generate_hex_fst fresh_tree_fields sort_report_mu if_False list.map hex_report_mu)
  ultimately show ?thesis by blast
qed

section \<open>Transport failure\<close>

lemma should_sync_True_iff:
  assumes "config s = Some c"
  shows "fst (should_sync now s) = Inr True \<longleftrightarrow>
           fst (can_sync now s) = Inr True \<and> last_hex c \<noteq> Some (fst (generate_hex None s))"
  unfolding should_sync_cached [OF assms]
  by (auto split: sum.splits bool.splits)

lemma should_sync_cong:
  assumes "config s = Some c" "config s' = Some c"
      and "minimal_sync_interval s' = minimal_sync_interval s"
      and "all_commands s' = all_commands s" "translator s' = translator s"
  shows "fst (should_sync now s') = fst (should_sync now s)"
  unfolding should_sync_cached [OF assms(1)] should_sync_cached [OF assms(2)]
    can_sync_cong [OF assms(1,2,3)] generate_hex_cong [OF assms(4,5)]
  by simp

lemma sync_transport_failure_state:
  assumes c: "config s = Some c"
      and need: "fst (should_sync now s) = Inr True"
      and fail: "transport guild = Inl e"
  shows "sync now now' transport guild s =
           (Inl e, s\<lparr>log := log (snd (should_sync now s)),
                     current_hex := current_hex (snd (should_sync now s)),
                     transport_calls := Suc (transport_calls s)\<rparr>)"
proof -
  obtain r s1 where rs: "should_sync now s = (r, s1)" by (cases "should_sync now s")
  have r: "r = Inr True" using need rs by simp
  define l h where "l = log s1" and "h = current_hex s1"
  have s1: "s1 = s\<lparr>log := l, current_hex := h\<rparr>"
    using should_sync_frame [OF c, of now] rs by (simp add: l_def h_def)
  show ?thesis
    unfolding sync_def rs r by (simp add: fail Let_def s1)
qed

text \<open>
  Claim C2. When \<^verbatim>\<open>should_sync\<close> decided \<^verbatim>\<open>True\<close> and the remote call \<^verbatim>\<open>super().sync\<close> fails with an
  error \<open>e\<close>, \<^verbatim>\<open>sync\<close> ends with that same error, the cached configuration and the disk are
  what they were before the call (and so are directory and file name), and at every later
  moment \<^verbatim>\<open>should_sync\<close> decides \<^verbatim>\<open>True\<close> again.
\<close>

theorem sync_transport_failure:
  assumes cfg: "config s \<noteq> None"
      and need: "fst (should_sync now s) = Inr True"
      and fail: "transport guild = Inl e"
  shows "fst (sync now now' transport guild s) = Inl e
       \<and> config (snd (sync now now' transport guild s)) = config s
       \<and> fs (snd (sync now now' transport guild s)) = fs s
       \<and> directory (snd (sync now now' transport guild s)) = directory s
       \<and> filename (snd (sync now now' transport guild s)) = filename s
       \<and> (\<forall>now2. now \<le> now2 \<longrightarrow>
             fst (should_sync now2 (snd (sync now now' transport guild s))) = Inr True)"
proof -
  obtain c where c: "config s = Some c" using cfg by auto
  define l h where "l = log (snd (should_sync now s))" and "h = current_hex (snd (should_sync now s))"
  let ?s' = "s\<lparr>log := l, current_hex := h, transport_calls := Suc (transport_calls s)\<rparr>"
  have res: "sync now now' transport guild s = (Inl e, ?s')"
    unfolding l_def h_def by (rule sync_transport_failure_state [where transport = transport and guild = guild, OF c need fail])
  have c': "config ?s' = Some c" using c by simp
  have gate: "fst (can_sync now s) = Inr True"
    and hex: "last_hex c \<noteq> Some (fst (generate_hex None s))"
    using need should_sync_True_iff [OF c, of now] by auto
  have again: "fst (should_sync now2 ?s') = Inr True" if "now \<le> now2" for now2
  proof -
    have "fst (should_sync now2 ?s') = fst (should_sync now2 s)"
      by (rule should_sync_cong [OF c c']) simp_all
    moreover have "fst (can_sync now2 s) = Inr True"
      by (rule can_sync_mono [OF c gate that])
    ultimately show ?thesis
      using hex should_sync_True_iff [OF c, of now2] by simp
  qed
  show ?thesis
    unfolding res using c again by simp
qed

lemma can_sync_no_prior:
  assumes "config s = Some c" "last_timestamp c = None \<or> last_timestamp c = Some 0"
  shows "fst (can_sync now s) = Inr True"
  using assms
  by (auto simp: can_sync_def last_synced_at_cached Let_def split: option.splits)

lemma should_sync_fresh:
  "fst (should_sync now (fresh_tree i cs)) = Inr True"
  by (simp add: should_sync_True_iff [OF fresh_tree_config] can_sync_no_prior [OF fresh_tree_config])

theorem sync_transport_failure_witness:
  "fst (sync 0 0 (\<lambda>_. Inl (TransportError ''503'')) None (fresh_tree MISSING [ban]))
     = Inl (TransportError ''503'')
   \<and> config (snd (sync 0 0 (\<lambda>_. Inl (TransportError ''503'')) None (fresh_tree MISSING [ban])))
     = config (fresh_tree MISSING [ban])
   \<and> fs (snd (sync 0 0 (\<lambda>_. Inl (TransportError ''503'')) None (fresh_tree MISSING [ban])))
     = fs (fresh_tree MISSING [ban])
   \<and> fst (should_sync 5 (snd (sync 0 0 (\<lambda>_. Inl (TransportError ''503'')) None
                                (fresh_tree MISSING [ban])))) = Inr True"
proof -
  have cfg: "config (fresh_tree MISSING [ban]) \<noteq> None"
    by (simp add: fresh_tree_config)
  have fail: "(\<lambda>_::nat option. Inl (TransportError ''503'') :: error + string list) None
                = Inl (TransportError ''503'')"
    by simp
  show ?thesis
    using sync_transport_failure
            [where transport = "\<lambda>_. Inl (TransportError ''503'')" and guild = None
               and now' = 0 and now = 0,
             OF cfg should_sync_fresh fail]
    by simp
qed

section \<open>Loading the backing file\<close>

lemma json_decode_fails:
  "json_decode NotJson = None"
  "json_decode JsonNonObject = None"
  "m ''last_timestamp'' = None \<Longrightarrow> json_decode (JsonObject m) = None"
  "m ''last_hex'' = None \<Longrightarrow> json_decode (JsonObject m) = None"
  "m ''last_timestamp'' = Some (JStr x) \<Longrightarrow> json_decode (JsonObject m) = None"
  "m ''last_hex'' = Some JNull \<Longrightarrow> json_decode (JsonObject m) = None"
  by (simp_all add: json_decode_def split: option.splits json_value.splits)

lemma json_decode_encode:
  "json_decode (json_encode \<lparr>last_timestamp = Some t, last_hex = Some h\<rparr>)
     = Some \<lparr>last_timestamp = Some t, last_hex = Some h\<rparr>"
  by (simp add: json_decode_def json_encode_def)

lemma init_fields:
  "all_commands (AutoSyncTree_init d n i t cs f) = cs"
  "translator (AutoSyncTree_init d n i t cs f) = t"
  "minimal_sync_interval (AutoSyncTree_init d n i t cs f) = interval_of i"
  "current_hex (AutoSyncTree_init d n i t cs f) = None"
  "transport_calls (AutoSyncTree_init d n i t cs f) = 0"
  "directory (AutoSyncTree_init d n i t cs f) = d"
  "filename (AutoSyncTree_init d n i t cs f) = n"
  unfolding AutoSyncTree_init_def
  by (subst get_config_frame, simp)+

lemma loaded_tree_fields:
  "all_commands (loaded_tree i cs c) = (\<lambda>_. cs)"
  "translator (loaded_tree i cs c) = False"
  "minimal_sync_interval (loaded_tree i cs c) = interval_of i"
  "current_hex (loaded_tree i cs c) = None"
  "transport_calls (loaded_tree i cs c) = 0"
  by (simp_all only: loaded_tree_def init_fields)

lemma loaded_tree_store:
  "path_cache (loaded_tree i cs c) = Some (''bot'', ''discord_py_autosync_config.json'')"
  "fs (loaded_tree i cs c) = disk_with c"
  "config (loaded_tree i cs c) =
     Some (case json_decode c of None \<Rightarrow> \<lparr>last_timestamp = None, last_hex = None\<rparr> | Some x \<Rightarrow> x)"
  by (simp_all add: loaded_tree_def AutoSyncTree_init_def get_config_def path_prop_def
        ensure_path_exists_def read_text_def load_failed_def disk_with_def Let_def
      split: option.splits)

lemma get_config_never_raises: "fst (get_config force_reload s) \<noteq> Inl e"
  using get_config_returns [of force_reload s] by auto

lemma get_config_fallback:
  assumes load: "force_reload \<or> config s = None"
      and bad: "case path_prop s of
                  (Inl e, s1) \<Rightarrow> True
                | (Inr p, s1) \<Rightarrow>
                    (case read_text p (fs s1) of
                       Inl e \<Rightarrow> True
                     | Inr content \<Rightarrow> json_decode content = None)"
  shows "fst (get_config force_reload s) = Inr \<lparr>last_timestamp = None, last_hex = None\<rparr>
       \<and> config (snd (get_config force_reload s)) = Some \<lparr>last_timestamp = None, last_hex = None\<rparr>
       \<and> (\<exists>p e. log (snd (get_config force_reload s)) = log s @ [WarningLoadFailed p e])"
proof -
  have none: "(if force_reload then None else config s) = None" using load by auto
  obtain r s1 where ps: "path_prop s = (r, s1)" by (cases "path_prop s")
  define pc f where "pc = path_cache s1" and "f = fs s1"
  have s1: "s1 = s\<lparr>path_cache := pc, fs := f\<rparr>"
    using path_prop_frame [of s] ps by (simp add: pc_def f_def)
  obtain p where p: "pc = Some p"
    using path_prop_fills_cache [of s] ps by (auto simp: pc_def)
  have pcs: "path_cache (s\<lparr>path_cache := pc, fs := f\<rparr>) = Some p" by (simp add: p)
  show ?thesis
    using bad unfolding get_config_def none ps s1
    by (auto simp: load_failed_cached [OF pcs] split: sum.splits option.splits)
qed

lemma should_sync_absent:
  assumes "config s = Some \<lparr>last_timestamp = None, last_hex = None\<rparr>"
  shows "fst (should_sync now s) = Inr True"
  by (simp add: should_sync_True_iff [OF assms] can_sync_no_prior [OF assms])

text \<open>
  Claim C5. When the load of \<^verbatim>\<open>get_config\<close> fails (the path cannot be ensured, the file cannot
  be read, or its content does not decode to a \<^verbatim>\<open>SavedConfig\<close>), \<^verbatim>\<open>get_config\<close> does not raise:
  it returns the dictionary with \<^verbatim>\<open>None\<close> in both fields, logs one warning, and \<^verbatim>\<open>should_sync\<close>
  on the resulting state decides \<^verbatim>\<open>True\<close> at every moment.
\<close>

theorem get_config_corrupted:
  assumes load: "force_reload \<or> config s = None"
      and bad: "case path_prop s of
                  (Inl e, s1) \<Rightarrow> True
                | (Inr p, s1) \<Rightarrow>
                    (case read_text p (fs s1) of
                       Inl e \<Rightarrow> True
                     | Inr content \<Rightarrow> json_decode content = None)"
  shows "fst (get_config force_reload s) = Inr \<lparr>last_timestamp = None, last_hex = None\<rparr>
       \<and> (\<exists>p e. log (snd (get_config force_reload s)) = log s @ [WarningLoadFailed p e])
       \<and> (\<forall>now. fst (should_sync now (snd (get_config force_reload s))) = Inr True)"
proof -
  note fb = get_config_fallback [OF load bad]
  have "fst (should_sync now (snd (get_config force_reload s))) = Inr True" for now
    by (rule should_sync_absent) (simp add: fb)
  then show ?thesis using fb by blast
qed

theorem get_config_corrupted_witness:
  "fst (get_config True (loaded_tree MISSING [ban] NotJson))
     = Inr \<lparr>last_timestamp = None, last_hex = None\<rparr>
   \<and> (\<exists>p e. log (snd (get_config True (loaded_tree MISSING [ban] NotJson)))
              = log (loaded_tree MISSING [ban] NotJson) @ [WarningLoadFailed p e])
   \<and> (\<forall>now. fst (should_sync now (snd (get_config True (loaded_tree MISSING [ban] NotJson))))
              = Inr True)"
proof -
  have load: "True \<or> config (loaded_tree MISSING [ban] NotJson) = None" by simp
  have bad: "case path_prop (loaded_tree MISSING [ban] NotJson) of
               (Inl e, s1) \<Rightarrow> True
             | (Inr p, s1) \<Rightarrow>
                 (case read_text p (fs s1) of
                    Inl e \<Rightarrow> True
                  | Inr content \<Rightarrow> json_decode content = None)"
    by (simp add: path_prop_cached [OF loaded_tree_store(1)] loaded_tree_store(2)
          read_text_def disk_with_def json_decode_fails)
  show ?thesis
    by (rule get_config_corrupted [OF load bad])
qed

text \<open>
  Claim C10. A loaded \<^verbatim>\<open>last_timestamp\<close> of 0 is falsy: \<^verbatim>\<open>last_synced_at\<close> is \<^verbatim>\<open>None\<close> and
  \<^verbatim>\<open>can_sync\<close> is \<^verbatim>\<open>True\<close>, whatever the minimal interval.
\<close>

theorem epoch_timestamp_absent:
  assumes "config s = Some c" and "last_timestamp c = Some 0"
  shows "fst (last_synced_at s) = Inr None \<and> fst (can_sync now s) = Inr True"
  using assms can_sync_no_prior [of s c now]
  by (simp add: last_synced_at_cached)

theorem epoch_timestamp_absent_witness:
  "fst (last_synced_at
          (loaded_tree MISSING [ban]
             (json_encode \<lparr>last_timestamp = Some 0, last_hex = Some ''e53a87012644e87f''\<rparr>)))
     = Inr None
   \<and> fst (can_sync 1700000000000000
            (loaded_tree MISSING [ban]
               (json_encode \<lparr>last_timestamp = Some 0, last_hex = Some ''e53a87012644e87f''\<rparr>)))
     = Inr True"
proof -
  have c: "config (loaded_tree MISSING [ban]
                    (json_encode \<lparr>last_timestamp = Some 0, last_hex = Some ''e53a87012644e87f''\<rparr>))
             = Some \<lparr>last_timestamp = Some 0, last_hex = Some ''e53a87012644e87f''\<rparr>"
    by (simp only: loaded_tree_store json_decode_encode option.case)
  show ?thesis
    by (rule epoch_timestamp_absent [OF c]) simp
qed

section \<open>The interval gate\<close>

lemma loaded_tree_config:
  "config (loaded_tree i cs (json_encode \<lparr>last_timestamp = Some t, last_hex = Some h\<rparr>))
     = Some \<lparr>last_timestamp = Some t, last_hex = Some h\<rparr>"
  by (simp only: loaded_tree_store json_decode_encode option.case)

lemma can_sync_gate:
  assumes "config s = Some c" and "last_timestamp c = Some t" and "t \<noteq> 0"
      and "MIN_TIMESTAMP \<le> t" and "t \<le> MAX_TIMESTAMP"
      and "minimal_sync_interval s = Some i"
      and "MIN_TIMESTAMP * 1000000 \<le> t * 1000000 + i"
      and "t * 1000000 + i \<le> MAX_TIMESTAMP * 1000000 + 999999"
  shows "fst (can_sync now s) = Inr (i \<le> now - t * 1000000)"
  using assms
  by (simp add: can_sync_def last_synced_at_cached fromtimestamp_def datetime_add_def Let_def)

lemma can_sync_no_interval:
  assumes "config s = Some c" and "minimal_sync_interval s = None"
      and "\<forall>t. last_timestamp c = Some t \<longrightarrow> MIN_TIMESTAMP \<le> t \<and> t \<le> MAX_TIMESTAMP"
  shows "fst (can_sync now s) = Inr True"
  using assms
  by (auto simp: can_sync_def last_synced_at_cached fromtimestamp_def Let_def split: option.splits)

lemma can_sync_interval_examples:
  "fst (can_sync 1700000100000000
          (loaded_tree MISSING [ban]
             (json_encode \<lparr>last_timestamp = Some 1700000000, last_hex = Some ''e53a87012644e87f''\<rparr>)))
     = Inr False"
  "fst (can_sync 1700000301000000
          (loaded_tree MISSING [ban]
             (json_encode \<lparr>last_timestamp = Some 1700000000, last_hex = Some ''e53a87012644e87f''\<rparr>)))
     = Inr True"
  "fst (can_sync 1700000100000000 (fresh_tree MISSING [ban])) = Inr True"
proof -
  let ?s = "loaded_tree MISSING [ban]
             (json_encode \<lparr>last_timestamp = Some 1700000000, last_hex = Some ''e53a87012644e87f''\<rparr>)"
  have g: "fst (can_sync now ?s) = Inr (300000000 \<le> now - 1700000000 * 1000000)" for now
    by (rule can_sync_gate [OF loaded_tree_config])
       (simp_all add: loaded_tree_fields interval_of_def DEFAULT_MINIMAL_SYNC_INTERVAL_SECONDS_def
          MIN_TIMESTAMP_def MAX_TIMESTAMP_def)
  show "fst (can_sync 1700000100000000 ?s) = Inr False" by (simp add: g)
  show "fst (can_sync 1700000301000000 ?s) = Inr True" by (simp add: g)
  show "fst (can_sync 1700000100000000 (fresh_tree MISSING [ban])) = Inr True"
    by (rule can_sync_no_prior [OF fresh_tree_config]) simp
qed

lemma can_sync_add_overflow:
  assumes "config s = Some c" and "last_timestamp c = Some t" and "t \<noteq> 0"
      and "MIN_TIMESTAMP \<le> t" and "t \<le> MAX_TIMESTAMP"
      and "minimal_sync_interval s = Some i"
      and "MAX_TIMESTAMP * 1000000 + 999999 < t * 1000000 + i"
  shows "fst (can_sync now s) = Inl DateRangeError"
  using assms
  by (simp add: can_sync_def last_synced_at_cached fromtimestamp_def datetime_add_def Let_def)

lemma can_sync_timestamp_overflow:
  assumes "config s = Some c" and "last_timestamp c = Some t"
      and "MAX_TIMESTAMP < t"
  shows "fst (can_sync now s) = Inl DateRangeError"
proof -
  have "t \<noteq> 0" using assms(3) by (simp add: MAX_TIMESTAMP_def)
  then show ?thesis
    using assms
    by (simp add: can_sync_def last_synced_at_def get_config_cached fromtimestamp_def Let_def)
qed

text \<open>
  Claim C3. \<^verbatim>\<open>can_sync\<close> is not a total predicate. With the interval \<^verbatim>\<open>timedelta.max\<close> and a last
  sync on record, the sum \<^verbatim>\<open>last_sync + self.minimal_sync_interval\<close> that is computed for the log
  line leaves the range of \<^verbatim>\<open>datetime\<close>, and \<^verbatim>\<open>can_sync\<close> raises instead of answering \<^verbatim>\<open>False\<close>;
  with a stored timestamp beyond the year 9999, \<^verbatim>\<open>datetime.fromtimestamp\<close> raises in
  \<^verbatim>\<open>last_synced_at\<close>. Where the datetime arithmetic stays in range, the gate is as the claim
  says (\<open>can_sync_gate\<close>, \<open>can_sync_no_prior\<close>, \<open>can_sync_no_interval\<close>, and the three examples
  with the default interval of 300 seconds in \<open>can_sync_interval_examples\<close>).
\<close>

theorem can_sync_raises:
  "fst (can_sync 1700000100000000
          (loaded_tree (Timedelta 86399999999999999999) [ban]
             (json_encode \<lparr>last_timestamp = Some 1700000000, last_hex = Some ''e53a87012644e87f''\<rparr>)))
     = Inl DateRangeError
   \<and> fst (can_sync 1700000100000000
          (loaded_tree MISSING [ban]
             (json_encode \<lparr>last_timestamp = Some 99999999999999999, last_hex = Some ''e53a87012644e87f''\<rparr>)))
     = Inl DateRangeError"
proof
  show "fst (can_sync 1700000100000000
          (loaded_tree (Timedelta 86399999999999999999) [ban]
             (json_encode \<lparr>last_timestamp = Some 1700000000, last_hex = Some ''e53a87012644e87f''\<rparr>)))
     = Inl DateRangeError"
  proof (rule can_sync_add_overflow [where t = 1700000000 and i = 86399999999999999999, OF loaded_tree_config])
    show "minimal_sync_interval
            (loaded_tree (Timedelta 86399999999999999999) [ban]
               (json_encode \<lparr>last_timestamp = Some 1700000000, last_hex = Some ''e53a87012644e87f''\<rparr>))
          = Some 86399999999999999999"
      by (simp add: loaded_tree_fields interval_of_def)
  qed (simp_all add: MIN_TIMESTAMP_def MAX_TIMESTAMP_def)
  show "fst (can_sync 1700000100000000
          (loaded_tree MISSING [ban]
             (json_encode \<lparr>last_timestamp = Some 99999999999999999, last_hex = Some ''e53a87012644e87f''\<rparr>)))
     = Inl DateRangeError"
    by (rule can_sync_timestamp_overflow [where t = 99999999999999999, OF loaded_tree_config])
       (simp_all add: MAX_TIMESTAMP_def)
qed

section \<open>The change gate\<close>

lemma loaded_tree_log:
  "log (loaded_tree i cs (json_encode \<lparr>last_timestamp = Some t, last_hex = Some h\<rparr>))
     = [InfoLoaded (''bot'', ''discord_py_autosync_config.json'')]"
  by (simp add: loaded_tree_def AutoSyncTree_init_def get_config_def path_prop_def
        ensure_path_exists_def read_text_def disk_with_def Let_def json_decode_encode)

lemma can_sync_log_gate:
  assumes "config s = Some c" and "last_timestamp c = Some t" and "t \<noteq> 0"
      and "MIN_TIMESTAMP \<le> t" and "t \<le> MAX_TIMESTAMP"
      and "minimal_sync_interval s = Some i"
      and "MIN_TIMESTAMP * 1000000 \<le> t * 1000000 + i"
      and "t * 1000000 + i \<le> MAX_TIMESTAMP * 1000000 + 999999"
  shows "log (snd (can_sync now s))
           = log s @ [InfoCheckingCanSync, InfoCanSync (i \<le> now - t * 1000000)]"
  using assms
  by (simp add: can_sync_def last_synced_at_cached fromtimestamp_def datetime_add_def Let_def)

lemma length_generate_hex: "length (fst (generate_hex g s)) = 16"
  by (simp only: generate_hex_fst length_xxh64_hexdigest)

lemma should_sync_full:
  assumes c: "config s = Some c"
  shows "should_sync now s =
           (case can_sync now (s\<lparr>log := log s @ [InfoCheckingSync]\<rparr>) of
              (Inl e, s1) \<Rightarrow> (Inl e, s1)
            | (Inr False, s1) \<Rightarrow> (Inr False, s1)
            | (Inr True, s1) \<Rightarrow>
                (Inr (last_hex c \<noteq> Some (fst (generate_hex None s))),
                 s1\<lparr>current_hex := Some (fst (generate_hex None s)),
                    log := log s1
                      @ (case last_hex c of
                           None \<Rightarrow> []
                         | Some h \<Rightarrow> if h \<noteq> [] \<and> length h \<noteq> 16
                                     then [WarningHexLength (length h) 16] else [])
                      @ [InfoNeedSync (last_hex c \<noteq> Some (fst (generate_hex None s)))]\<rparr>))"
proof -
  let ?s0 = "s\<lparr>log := log s @ [InfoCheckingSync]\<rparr>"
  have c0: "config ?s0 = Some c" using c by simp
  obtain r s1 where rs: "can_sync now ?s0 = (r, s1)" by (cases "can_sync now ?s0")
  define l where "l = log s1"
  have "s1 = ?s0\<lparr>log := log s1\<rparr>"
    using can_sync_frame [OF c0, of now] rs by simp
  then have s1: "s1 = s\<lparr>log := l\<rparr>" by (simp add: l_def)
  have c1: "config (s\<lparr>log := l\<rparr>) = Some c" by (simp add: c)
  have gh: "generate_hex None (s\<lparr>log := l\<rparr>)
              = (fst (generate_hex None s),
                 s\<lparr>log := l, current_hex := Some (fst (generate_hex None s))\<rparr>)"
    by (simp add: generate_hex_def Let_def)
  have len: "length (fst (generate_hex None s)) = 16" by (rule length_generate_hex)
  show ?thesis
    unfolding should_sync_def rs s1
    by (cases r; simp add: last_hex_prop_cached [OF c1] gh len Let_def
             split: option.splits bool.splits)
qed

lemma generate_hex_nonempty:
  "fst (generate_hex g s) \<noteq> []" "[] \<noteq> fst (generate_hex g s)"
  using length_generate_hex [of g s] by auto

lemma can_sync_log_entries:
  assumes "config s = Some c"
  shows "set (log (snd (can_sync now s)))
           \<subseteq> set (log s) \<union> {InfoCheckingCanSync, InfoCanSyncNoGate, InfoCanSync True, InfoCanSync False}"
  using assms
  by (auto simp: can_sync_def last_synced_at_cached Let_def split: option.splits sum.splits if_splits)

lemma can_sync_log_cong:
  assumes "config s = Some c"
  shows "fst (can_sync now (s\<lparr>log := l\<rparr>)) = fst (can_sync now s)"
  by (rule can_sync_cong [OF assms]) (simp_all add: assms)

text \<open>
  Claim C4, as amended. With the interval gate \<^verbatim>\<open>False\<close>, \<^verbatim>\<open>should_sync\<close> answers \<^verbatim>\<open>False\<close> and
  computes no fingerprint (\<^verbatim>\<open>current_hex\<close> is what it was). With the gate \<^verbatim>\<open>True\<close> it computes the
  fingerprint of the global command set, caches it in \<^verbatim>\<open>current_hex\<close>, and answers \<^verbatim>\<open>True\<close> exactly
  when the stored fingerprint is absent or differs from it. A stored fingerprint that is not
  empty and not 16 characters long is a mismatch, and the length warning is logged. An empty
  stored fingerprint is a mismatch as well, and the call logs no length warning (every length
  warning in the log after the call was in the log before it).
\<close>

theorem should_sync_decision:
  assumes c: "config s = Some c"
  shows "(fst (can_sync now s) = Inr False \<longrightarrow>
            fst (should_sync now s) = Inr False
            \<and> current_hex (snd (should_sync now s)) = current_hex s)
       \<and> (fst (can_sync now s) = Inr True \<longrightarrow>
            fst (should_sync now s) = Inr (last_hex c \<noteq> Some (fst (generate_hex None s)))
            \<and> current_hex (snd (should_sync now s)) = Some (fst (generate_hex None s)))
       \<and> (\<forall>h. fst (can_sync now s) = Inr True \<longrightarrow> last_hex c = Some h \<longrightarrow> h \<noteq> [] \<longrightarrow>
                length h \<noteq> 16 \<longrightarrow>
            fst (should_sync now s) = Inr True
            \<and> length (fst (generate_hex None s)) = 16
            \<and> WarningHexLength (length h) 16 \<in> set (log (snd (should_sync now s))))
       \<and> (fst (can_sync now s) = Inr True \<longrightarrow> last_hex c = Some [] \<longrightarrow>
            fst (should_sync now s) = Inr True
            \<and> (\<forall>a b. WarningHexLength a b \<in> set (log (snd (should_sync now s)))
                   \<longrightarrow> WarningHexLength a b \<in> set (log s)))"
proof -
  let ?s0 = "s\<lparr>log := log s @ [InfoCheckingSync]\<rparr>"
  obtain r s1 where rs: "can_sync now ?s0 = (r, s1)" by (cases "can_sync now ?s0")
  have r: "fst (can_sync now s) = r"
    using can_sync_log_cong [OF c, of now "log s @ [InfoCheckingSync]"] rs by simp
  have c0: "config ?s0 = Some c" using c by simp
  define l where "l = log s1"
  have "s1 = ?s0\<lparr>log := log s1\<rparr>"
    using can_sync_frame [OF c0, of now] rs by simp
  then have s1: "s1 = s\<lparr>log := l\<rparr>" by (simp add: l_def)
  have f: "current_hex s1 = current_hex s" by (subst s1) simp
  have len: "length (fst (generate_hex None s)) = 16" by (rule length_generate_hex)
  have le: "WarningHexLength a b \<in> set (log s)" if "WarningHexLength a b \<in> set (log s1)" for a b
    using can_sync_log_entries [OF c0, of now] rs that by auto
  have ne: "[] \<noteq> fst (generate_hex None s)" by (rule generate_hex_nonempty)
  show ?thesis
    using r unfolding should_sync_full [OF c] rs
    by (cases r) (auto simp: f len ne dest: le split: bool.splits)
qed

lemma can_sync_full_gate:
  assumes "config s = Some c" and "last_timestamp c = Some t" and "t \<noteq> 0"
      and "MIN_TIMESTAMP \<le> t" and "t \<le> MAX_TIMESTAMP"
      and "minimal_sync_interval s = Some i"
      and "MIN_TIMESTAMP * 1000000 \<le> t * 1000000 + i"
      and "t * 1000000 + i \<le> MAX_TIMESTAMP * 1000000 + 999999"
  shows "can_sync now s =
           (Inr (i \<le> now - t * 1000000),
            s\<lparr>log := log s @ [InfoCheckingCanSync, InfoCanSync (i \<le> now - t * 1000000)]\<rparr>)"
  using assms
  by (simp add: can_sync_def last_synced_at_cached fromtimestamp_def datetime_add_def Let_def)

lemma can_sync_loaded:
  "can_sync now
     (loaded_tree MISSING cs (json_encode \<lparr>last_timestamp = Some 1700000000, last_hex = Some h\<rparr>)
        \<lparr>log := l\<rparr>)
   = (Inr (300000000 \<le> now - 1700000000000000),
      loaded_tree MISSING cs (json_encode \<lparr>last_timestamp = Some 1700000000, last_hex = Some h\<rparr>)
        \<lparr>log := l @ [InfoCheckingCanSync, InfoCanSync (300000000 \<le> now - 1700000000000000)]\<rparr>)"
proof -
  let ?s = "loaded_tree MISSING cs
              (json_encode \<lparr>last_timestamp = Some 1700000000, last_hex = Some h\<rparr>)"
  have c: "config (?s\<lparr>log := l\<rparr>) = Some \<lparr>last_timestamp = Some 1700000000, last_hex = Some h\<rparr>"
    by (simp add: loaded_tree_config)
  have "can_sync now (?s\<lparr>log := l\<rparr>) =
          (Inr (300000000 \<le> now - 1700000000 * 1000000),
           ?s\<lparr>log := l\<rparr>\<lparr>log := log (?s\<lparr>log := l\<rparr>)
              @ [InfoCheckingCanSync, InfoCanSync (300000000 \<le> now - 1700000000 * 1000000)]\<rparr>)"
    by (rule can_sync_full_gate [where t = 1700000000 and i = 300000000, OF c])
       (simp_all add: loaded_tree_fields interval_of_def DEFAULT_MINIMAL_SYNC_INTERVAL_SECONDS_def
          MIN_TIMESTAMP_def MAX_TIMESTAMP_def)
  then show ?thesis by simp
qed

lemma can_sync_loaded_fst:
  "fst (can_sync now
     (loaded_tree MISSING cs (json_encode \<lparr>last_timestamp = Some 1700000000, last_hex = Some h\<rparr>)))
   = Inr (300000000 \<le> now - 1700000000000000)"
proof -
  let ?s = "loaded_tree MISSING cs
              (json_encode \<lparr>last_timestamp = Some 1700000000, last_hex = Some h\<rparr>)"
  have "fst (can_sync now (?s\<lparr>log := log ?s\<rparr>)) = Inr (300000000 \<le> now - 1700000000000000)"
    by (simp only: can_sync_loaded fst_conv)
  then show ?thesis by simp
qed

theorem should_sync_decision_witness:
  "fst (should_sync 1700000100000000
          (loaded_tree MISSING [ban]
             (json_encode \<lparr>last_timestamp = Some 1700000000, last_hex = Some ''e53a87012644e87f''\<rparr>)))
     = Inr False
   \<and> current_hex (snd (should_sync 1700000100000000
          (loaded_tree MISSING [ban]
             (json_encode \<lparr>last_timestamp = Some 1700000000, last_hex = Some ''e53a87012644e87f''\<rparr>))))
     = None
   \<and> fst (should_sync 1700000301000000
          (loaded_tree MISSING [ban]
             (json_encode \<lparr>last_timestamp = Some 1700000000, last_hex = Some ''abc''\<rparr>)))
     = Inr True
   \<and> WarningHexLength 3 16
       \<in> set (log (snd (should_sync 1700000301000000
          (loaded_tree MISSING [ban]
             (json_encode \<lparr>last_timestamp = Some 1700000000, last_hex = Some ''abc''\<rparr>)))))
   \<and> fst (should_sync 1700000301000000
          (loaded_tree MISSING [ban]
             (json_encode \<lparr>last_timestamp = Some 1700000000, last_hex = Some ''''\<rparr>)))
     = Inr True
   \<and> WarningHexLength 0 16
       \<notin> set (log (snd (should_sync 1700000301000000
          (loaded_tree MISSING [ban]
             (json_encode \<lparr>last_timestamp = Some 1700000000, last_hex = Some ''''\<rparr>)))))"
proof -
  let ?a = "loaded_tree MISSING [ban]
              (json_encode \<lparr>last_timestamp = Some 1700000000, last_hex = Some ''e53a87012644e87f''\<rparr>)"
  let ?b = "loaded_tree MISSING [ban]
              (json_encode \<lparr>last_timestamp = Some 1700000000, last_hex = Some ''abc''\<rparr>)"
  let ?e = "loaded_tree MISSING [ban]
              (json_encode \<lparr>last_timestamp = Some 1700000000, last_hex = Some ''''\<rparr>)"
  note a = should_sync_decision
             [OF loaded_tree_config [of MISSING "[ban]" 1700000000 "''e53a87012644e87f''"],
              where now = 1700000100000000]
  note b = should_sync_decision
             [OF loaded_tree_config [of MISSING "[ban]" 1700000000 "''abc''"],
              where now = 1700000301000000]
  note e = should_sync_decision
             [OF loaded_tree_config [of MISSING "[ban]" 1700000000 "''''"],
              where now = 1700000301000000]
  have ga: "fst (can_sync 1700000100000000 ?a) = Inr False"
    by (simp add: can_sync_loaded_fst)
  have gb: "fst (can_sync 1700000301000000 ?b) = Inr True"
    by (simp add: can_sync_loaded_fst)
  have ge: "fst (can_sync 1700000301000000 ?e) = Inr True"
    by (simp add: can_sync_loaded_fst)
  have la: "fst (should_sync 1700000100000000 ?a) = Inr False
          \<and> current_hex (snd (should_sync 1700000100000000 ?a)) = current_hex ?a"
    using a ga by blast
  have h1: "last_hex \<lparr>last_timestamp = Some 1700000000, last_hex = Some ''abc''\<rparr> = Some ''abc''"
    by simp
  have h2: "''abc'' \<noteq> []" by simp
  have h3: "length ''abc'' \<noteq> 16" by simp
  have lb: "fst (should_sync 1700000301000000 ?b) = Inr True
          \<and> WarningHexLength (length ''abc'') 16
              \<in> set (log (snd (should_sync 1700000301000000 ?b)))"
    using b gb h1 h2 h3 by blast
  have h4: "last_hex \<lparr>last_timestamp = Some 1700000000, last_hex = Some ''''\<rparr> = Some []"
    by simp
  have h5: "WarningHexLength 0 16 \<notin> set (log ?e)"
    by (simp add: loaded_tree_log)
  have le: "fst (should_sync 1700000301000000 ?e) = Inr True
          \<and> WarningHexLength 0 16 \<notin> set (log (snd (should_sync 1700000301000000 ?e)))"
    using e ge h4 h5 by blast
  have n: "length ''abc'' = 3" by simp
  have ca: "current_hex ?a = None" by (simp add: loaded_tree_fields)
  show ?thesis
    using la lb le unfolding n ca by blast
qed

text \<open>
  The stored fingerprint \<^verbatim>\<open>""\<close> has a length other than the 16 of the current one; it is
  treated as a mismatch, but \<^verbatim>\<open>if last_hex and ...\<close> skips the warning: the log of the call holds
  no length warning.
\<close>

theorem should_sync_empty_hex_counterexample:
  "fst (last_hex_prop
          (loaded_tree MISSING [ban]
             (json_encode \<lparr>last_timestamp = Some 1700000000, last_hex = Some ''''\<rparr>)))
     = Inr (Some '''')
   \<and> length (fst (generate_hex None
          (loaded_tree MISSING [ban]
             (json_encode \<lparr>last_timestamp = Some 1700000000, last_hex = Some ''''\<rparr>)))) = 16
   \<and> fst (should_sync 1700000301000000
          (loaded_tree MISSING [ban]
             (json_encode \<lparr>last_timestamp = Some 1700000000, last_hex = Some ''''\<rparr>)))
     = Inr True
   \<and> log (snd (should_sync 1700000301000000
          (loaded_tree MISSING [ban]
             (json_encode \<lparr>last_timestamp = Some 1700000000, last_hex = Some ''''\<rparr>))))
     = [InfoLoaded (''bot'', ''discord_py_autosync_config.json''),
        InfoCheckingSync, InfoCheckingCanSync, InfoCanSync True, InfoNeedSync True]"
  by (simp add: should_sync_full [OF loaded_tree_config] last_hex_prop_cached [OF loaded_tree_config]
        can_sync_loaded loaded_tree_log length_generate_hex generate_hex_nonempty)

section \<open>Changing the location of the file\<close>





section \<open>Successive calls of \<^verbatim>\<open>sync\<close>\<close>

lemma saved_config_updates:
  "c\<lparr>last_hex := Some h, last_timestamp := Some t\<rparr> = \<lparr>last_timestamp = Some t, last_hex = Some h\<rparr>"
  by (cases c) simp

lemma SaveConfig_update_success:
  assumes c: "config s = Some c"
      and u: "SaveConfig_update now h s = (Inr u, s')"
  shows "config s' = Some \<lparr>last_timestamp = Some (timestamp_seconds now), last_hex = Some h\<rparr>
       \<and> all_commands s' = all_commands s \<and> translator s' = translator s
       \<and> minimal_sync_interval s' = minimal_sync_interval s
       \<and> transport_calls s' = transport_calls s \<and> current_hex s' = current_hex s"
proof -
  let ?c' = "\<lparr>last_timestamp = Some (timestamp_seconds now), last_hex = Some h\<rparr>"
  let ?s2 = "s\<lparr>log := log s @ [InfoUpdating h], config := Some ?c'\<rparr>"
  obtain r s3 where ps: "path_prop ?s2 = (r, s3)" by (cases "path_prop ?s2")
  define pc f where "pc = path_cache s3" and "f = fs s3"
  have s3: "s3 = ?s2\<lparr>path_cache := pc, fs := f\<rparr>"
    using path_prop_frame [of ?s2] ps by (simp add: pc_def f_def)
  show ?thesis
    using u unfolding SaveConfig_update_def get_config_cached [OF c]
    by (auto simp: saved_config_updates Let_def ps s3 split: sum.splits prod.splits)
qed

lemma SaveConfig_update_cached:
  assumes c: "config s = Some c" and p: "path_cache s = Some p" and w: "p \<notin> write_denied (fs s)"
  shows "SaveConfig_update now h s =
           (Inr (),
            s\<lparr>log := log s @ [InfoUpdating h],
              config := Some \<lparr>last_timestamp = Some (timestamp_seconds now), last_hex = Some h\<rparr>,
              fs := (fs s)\<lparr>files := (files (fs s))
                      (p \<mapsto> json_encode \<lparr>last_timestamp = Some (timestamp_seconds now),
                                          last_hex = Some h\<rparr>)\<rparr>\<rparr>)"
  unfolding SaveConfig_update_def get_config_cached [OF c]
  by (simp add: saved_config_updates Let_def path_prop_cached p w write_text_def)

lemma should_sync_True_state:
  assumes c: "config s = Some c" and need: "fst (should_sync now s) = Inr True"
  shows "snd (should_sync now s) =
           s\<lparr>log := log (snd (should_sync now s)),
             current_hex := Some (fst (generate_hex None s))\<rparr>"
proof -
  let ?s0 = "s\<lparr>log := log s @ [InfoCheckingSync]\<rparr>"
  have c0: "config ?s0 = Some c" using c by simp
  obtain r sA where rs: "can_sync now ?s0 = (r, sA)" by (cases "can_sync now ?s0")
  define l where "l = log sA"
  have "sA = ?s0\<lparr>log := log sA\<rparr>"
    using can_sync_frame [OF c0, of now] rs by simp
  then have sA: "sA = s\<lparr>log := l\<rparr>" by (simp add: l_def)
  show ?thesis
    using need unfolding should_sync_full [OF c] rs sA
    by (cases r) (auto split: bool.splits)
qed

lemma sync_synced:
  assumes c: "config s = Some c" and need: "fst (should_sync now s) = Inr True"
      and ok: "transport guild = Inr r"
  shows "sync now now' transport guild s =
           (case SaveConfig_update now' (fst (generate_hex None s))
                   (s\<lparr>log := log (snd (should_sync now s)),
                      current_hex := Some (fst (generate_hex None s)),
                      transport_calls := Suc (transport_calls s)\<rparr>) of
              (Inl e, s4) \<Rightarrow> (Inl e, s4)
            | (Inr _, s4) \<Rightarrow> (Inr r, s4\<lparr>log := log s4 @ [InfoSynced (length r)]\<rparr>))"
proof -
  obtain x sA where rs: "should_sync now s = (x, sA)" by (cases "should_sync now s")
  have x: "x = Inr True" using need rs by simp
  define l where "l = log sA"
  have sA: "sA = s\<lparr>log := l, current_hex := Some (fst (generate_hex None s))\<rparr>"
    using should_sync_True_state [OF c need] rs by (simp add: l_def)
  show ?thesis
    unfolding sync_def rs x
    by (simp add: ok Let_def sA generate_hex_nonempty)
qed

lemma sync_not_needed:
  assumes "fst (should_sync now s) = Inr False"
  shows "sync now now' transport guild s = (Inr [], snd (should_sync now s))"
  using assms unfolding sync_def
  by (cases "should_sync now s") auto

lemma sync_gate_raises:
  assumes "fst (should_sync now s) = Inl e"
  shows "sync now now' transport guild s = (Inl e, snd (should_sync now s))"
  using assms unfolding sync_def
  by (cases "should_sync now s") auto

lemma sync_after_success:
  assumes c: "config s = Some c" and need: "fst (should_sync nowA s) = Inr True"
      and first: "sync nowA nowA' transportA guildA s = (Inr rA, sA)"
  shows "config sA = Some \<lparr>last_timestamp = Some (timestamp_seconds nowA'),
                           last_hex = Some (fst (generate_hex None s))\<rparr>
       \<and> transport_calls sA = Suc (transport_calls s)
       \<and> fst (sync nowB nowB' transportB guildB sA)
           = (case fst (can_sync nowB sA) of Inl e \<Rightarrow> Inl e | Inr b \<Rightarrow> Inr [])
       \<and> transport_calls (snd (sync nowB nowB' transportB guildB sA)) = transport_calls sA"
proof -
  obtain r where ok: "transportA guildA = Inr r"
    using first sync_transport_failure_state [where transport = transportA and guild = guildA,
      OF c need, of _ nowA']
    by (cases "transportA guildA") auto
  let ?s2 = "s\<lparr>log := log (snd (should_sync nowA s)),
               current_hex := Some (fst (generate_hex None s)),
               transport_calls := Suc (transport_calls s)\<rparr>"
  let ?c' = "\<lparr>last_timestamp = Some (timestamp_seconds nowA'),
              last_hex = Some (fst (generate_hex None s))\<rparr>"
  have c2: "config ?s2 = Some c" using c by simp
  obtain u s4 where up: "SaveConfig_update nowA' (fst (generate_hex None s)) ?s2 = (u, s4)"
    by (cases "SaveConfig_update nowA' (fst (generate_hex None s)) ?s2")
  have sA: "u = Inr () \<and> sA = s4\<lparr>log := log s4 @ [InfoSynced (length r)]\<rparr>"
    using first unfolding sync_synced [where transport = transportA and guild = guildA, OF c need ok] up
    by (cases u) auto
  have s4: "config s4 = Some ?c' \<and> all_commands s4 = all_commands ?s2 \<and> translator s4 = translator ?s2
       \<and> minimal_sync_interval s4 = minimal_sync_interval ?s2
       \<and> transport_calls s4 = transport_calls ?s2 \<and> current_hex s4 = current_hex ?s2"
    by (rule SaveConfig_update_success [OF c2]) (use up sA in simp)
  have c1: "config sA = Some ?c'" using sA s4 by simp
  have tc: "transport_calls sA = Suc (transport_calls s)" using sA s4 by simp
  have gh: "fst (generate_hex None sA) = fst (generate_hex None s)"
    by (rule generate_hex_cong) (use sA s4 in simp_all)
  have ss: "fst (should_sync nowB sA)
              = (case fst (can_sync nowB sA) of Inl e \<Rightarrow> Inl e | Inr b \<Rightarrow> Inr False)"
    unfolding should_sync_cached [OF c1] gh
    by (auto split: sum.splits bool.splits)
  have tcs: "transport_calls (snd (should_sync nowB sA)) = transport_calls sA"
    by (subst should_sync_frame [OF c1]) simp
  have second: "fst (sync nowB nowB' transportB guildB sA)
                  = (case fst (can_sync nowB sA) of Inl e \<Rightarrow> Inl e | Inr b \<Rightarrow> Inr [])
              \<and> transport_calls (snd (sync nowB nowB' transportB guildB sA)) = transport_calls sA"
  proof (cases "fst (can_sync nowB sA)")
    case (Inl e)
    then have "fst (should_sync nowB sA) = Inl e" using ss by simp
    then show ?thesis using Inl tcs by (simp add: sync_gate_raises)
  next
    case (Inr b)
    then have "fst (should_sync nowB sA) = Inr False" using ss by simp
    then show ?thesis using Inr tcs by (simp add: sync_not_needed)
  qed
  show ?thesis using c1 tc second by blast
qed

lemma init_empty_fs:
  "config (AutoSyncTree_init d n i t cs empty_fs) = Some \<lparr>last_timestamp = None, last_hex = None\<rparr>"
  "path_cache (AutoSyncTree_init d n i t cs empty_fs) = Some (d, n @ ''.json'')"
  "write_denied (fs (AutoSyncTree_init d n i t cs empty_fs)) = {}"
  by (simp_all add: AutoSyncTree_init_def get_config_def path_prop_def ensure_path_exists_def
        write_text_def read_text_def json_decode_def load_failed_def empty_fs_def Let_def)

lemma sync_success:
  assumes c: "config s = Some c" and need: "fst (should_sync now s) = Inr True"
      and ok: "transport guild = Inr r"
      and p: "path_cache s = Some p" and w: "p \<notin> write_denied (fs s)"
  shows "sync now now' transport guild s =
           (Inr r,
            s\<lparr>log := log (snd (should_sync now s))
                   @ [InfoUpdating (fst (generate_hex None s)), InfoSynced (length r)],
              current_hex := Some (fst (generate_hex None s)),
              transport_calls := Suc (transport_calls s),
              config := Some \<lparr>last_timestamp = Some (timestamp_seconds now'),
                              last_hex = Some (fst (generate_hex None s))\<rparr>,
              fs := (fs s)\<lparr>files := (files (fs s))
                      (p \<mapsto> json_encode \<lparr>last_timestamp = Some (timestamp_seconds now'),
                                          last_hex = Some (fst (generate_hex None s))\<rparr>)\<rparr>\<rparr>)"
proof -
  let ?s2 = "s\<lparr>log := log (snd (should_sync now s)),
               current_hex := Some (fst (generate_hex None s)),
               transport_calls := Suc (transport_calls s)\<rparr>"
  have c2: "config ?s2 = Some c" using c by simp
  have p2: "path_cache ?s2 = Some p" using p by simp
  have w2: "p \<notin> write_denied (fs ?s2)" using w by simp
  show ?thesis
    unfolding sync_synced [where transport = transport and guild = guild, OF c need ok]
      SaveConfig_update_cached [OF c2 p2 w2]
    by simp
qed

lemma sync_second_call:
  assumes c: "config s = Some c"
      and first: "sync nowA nowA' transportA guildA s = (Inr rA, sA)"
      and gate: "fst (can_sync nowB s) = Inr True \<longrightarrow> fst (can_sync nowA s) = Inr True"
  shows "fst (sync nowB nowB' transportB guildB sA)
           = (case fst (can_sync nowB sA) of Inl e \<Rightarrow> Inl e | Inr b \<Rightarrow> Inr [])
       \<and> transport_calls (snd (sync nowB nowB' transportB guildB sA)) = transport_calls sA
       \<and> transport_calls sA \<le> Suc (transport_calls s)"
proof (cases "fst (should_sync nowA s)")
  case (Inl e)
  then show ?thesis using first by (simp add: sync_gate_raises)
next
  case (Inr b)
  show ?thesis
  proof (cases b)
    case True
    then have need: "fst (should_sync nowA s) = Inr True" using Inr by simp
    show ?thesis
      using sync_after_success [OF c need first, of nowB nowB' transportB guildB] by simp
  next
    case False
    then have no: "fst (should_sync nowA s) = Inr False" using Inr by simp
    have sA: "sA = snd (should_sync nowA s)"
      using first by (simp add: sync_not_needed [OF no])
    have fr: "sA = s\<lparr>log := log sA, current_hex := current_hex sA\<rparr>"
      unfolding sA by (rule should_sync_frame [OF c])
    have c1: "config sA = Some c" by (subst fr) (simp add: c)
    have tc: "transport_calls sA = transport_calls s" by (subst fr) simp
    have g2: "fst (can_sync nowB sA) = fst (can_sync nowB s)"
      by (rule can_sync_cong [OF c c1]) (subst fr, simp)
    have ss2: "fst (should_sync nowB sA) = fst (should_sync nowB s)"
      by (rule should_sync_cong [OF c c1]) (subst fr, simp)+
    have ss: "fst (should_sync nowB sA)
                = (case fst (can_sync nowB sA) of Inl e \<Rightarrow> Inl e | Inr b \<Rightarrow> Inr False)"
      using no gate unfolding ss2 g2 should_sync_cached [OF c]
      by (auto split: sum.splits bool.splits)
    have tcs: "transport_calls (snd (should_sync nowB sA)) = transport_calls sA"
      by (subst should_sync_frame [OF c1]) simp
    have "fst (sync nowB nowB' transportB guildB sA)
            = (case fst (can_sync nowB sA) of Inl e \<Rightarrow> Inl e | Inr b \<Rightarrow> Inr [])
        \<and> transport_calls (snd (sync nowB nowB' transportB guildB sA)) = transport_calls sA"
    proof (cases "fst (can_sync nowB sA)")
      case (Inl e)
      then have "fst (should_sync nowB sA) = Inl e" using ss by simp
      then show ?thesis using Inl tcs by (simp add: sync_gate_raises)
    next
      case (Inr b)
      then have "fst (should_sync nowB sA) = Inr False" using ss by simp
      then show ?thesis using Inr tcs by (simp add: sync_not_needed)
    qed
    then show ?thesis using tc by simp
  qed
qed

lemma can_sync_raise_indep:
  assumes "config s = Some c"
  shows "(fst (can_sync nowB s) = Inl e) = (fst (can_sync nowA s) = Inl e)"
  using assms
  by (auto simp: can_sync_def last_synced_at_cached Let_def split: option.splits sum.splits if_splits)

lemma can_sync_in_range:
  assumes "config s = Some c"
      and "\<forall>t. last_timestamp c = Some t \<longrightarrow>
             MIN_TIMESTAMP \<le> t \<and> t \<le> MAX_TIMESTAMP
             \<and> (\<forall>i. minimal_sync_interval s = Some i \<longrightarrow>
                    MIN_TIMESTAMP * 1000000 \<le> t * 1000000 + i
                    \<and> t * 1000000 + i \<le> MAX_TIMESTAMP * 1000000 + 999999)"
  shows "\<exists>b. fst (can_sync now s) = Inr b"
  using assms
  by (auto simp: can_sync_def last_synced_at_cached fromtimestamp_def datetime_add_def Let_def
      split: option.splits)

lemma SaveConfig_update_calls:
  assumes c: "config s = Some c"
  shows "transport_calls (snd (SaveConfig_update now h s)) = transport_calls s"
proof -
  let ?c' = "\<lparr>last_timestamp = Some (timestamp_seconds now), last_hex = Some h\<rparr>"
  let ?s2 = "s\<lparr>log := log s @ [InfoUpdating h], config := Some ?c'\<rparr>"
  obtain r s3 where ps: "path_prop ?s2 = (r, s3)" by (cases "path_prop ?s2")
  define pc f where "pc = path_cache s3" and "f = fs s3"
  have s3: "s3 = ?s2\<lparr>path_cache := pc, fs := f\<rparr>"
    using path_prop_frame [of ?s2] ps by (simp add: pc_def f_def)
  show ?thesis
    unfolding SaveConfig_update_def get_config_cached [OF c]
    by (auto simp: saved_config_updates Let_def ps s3 split: sum.splits prod.splits)
qed

lemma sync_invokes_transport:
  assumes c: "config s = Some c" and need: "fst (should_sync now s) = Inr True"
  shows "transport_calls (snd (sync now now' transport guild s)) = Suc (transport_calls s)"
proof (cases "transport guild")
  case (Inl e)
  show ?thesis
    by (simp add: sync_transport_failure_state
          [where transport = transport and guild = guild, OF c need Inl])
next
  case (Inr r)
  let ?s2 = "s\<lparr>log := log (snd (should_sync now s)),
               current_hex := Some (fst (generate_hex None s)),
               transport_calls := Suc (transport_calls s)\<rparr>"
  have c2: "config ?s2 = Some c" using c by simp
  obtain u s4 where up: "SaveConfig_update now' (fst (generate_hex None s)) ?s2 = (u, s4)"
    by (cases "SaveConfig_update now' (fst (generate_hex None s)) ?s2")
  have "transport_calls s4 = transport_calls ?s2"
    using SaveConfig_update_calls [OF c2, of now' "fst (generate_hex None s)"] up by simp
  then show ?thesis
    unfolding sync_synced [where transport = transport and guild = guild, OF c need Inr] up
    by (cases u) simp_all
qed

lemma should_sync_after_failure:
  assumes c: "config s = Some c"
      and need: "fst (should_sync now s) = Inr True"
      and fail: "transport guild = Inl e"
      and later: "now \<le> nowB"
  shows "config (snd (sync now now' transport guild s)) = Some c
       \<and> fst (should_sync nowB (snd (sync now now' transport guild s))) = Inr True
       \<and> transport_calls (snd (sync now now' transport guild s)) = Suc (transport_calls s)"
proof -
  define l h where "l = log (snd (should_sync now s))" and "h = current_hex (snd (should_sync now s))"
  let ?s' = "s\<lparr>log := l, current_hex := h, transport_calls := Suc (transport_calls s)\<rparr>"
  have res: "sync now now' transport guild s = (Inl e, ?s')"
    unfolding l_def h_def
    by (rule sync_transport_failure_state [where transport = transport and guild = guild,
          OF c need fail])
  have c': "config ?s' = Some c" using c by simp
  have gate: "fst (can_sync now s) = Inr True"
    and hex: "last_hex c \<noteq> Some (fst (generate_hex None s))"
    using need should_sync_True_iff [OF c, of now] by auto
  have "fst (should_sync nowB ?s') = fst (should_sync nowB s)"
    by (rule should_sync_cong [OF c c']) simp_all
  moreover have "fst (can_sync nowB s) = Inr True"
    by (rule can_sync_mono [OF c gate later])
  ultimately have "fst (should_sync nowB ?s') = Inr True"
    using hex should_sync_True_iff [OF c, of nowB] by simp
  then show ?thesis
    unfolding res using c by simp
qed

text \<open>
  Claim C7, as amended. First part: when a first call of \<^verbatim>\<open>sync\<close> has returned (without raising),
  the interval gate is not open at the second call unless it was open at the first (no time has
  elapsed past the interval), and the time that the first call records as well as that time
  plus the minimal interval are in the range of \<^verbatim>\<open>datetime\<close>, a second call on the same command
  set returns the empty list, and the remote call is invoked at most once over the two calls.
  Second part: when the remote call of the first \<^verbatim>\<open>sync\<close> fails, the first call ends with that
  error and every later second call invokes the remote call again (two invocations).
\<close>

theorem sync_twice:
  assumes c: "config s = Some c"
  shows "(\<forall>rA. fst (sync nowA nowA' transportA guildA s) = Inr rA \<longrightarrow>
            (fst (can_sync nowB s) = Inr True \<longrightarrow> fst (can_sync nowA s) = Inr True) \<longrightarrow>
            MIN_TIMESTAMP \<le> timestamp_seconds nowA' \<longrightarrow>
            timestamp_seconds nowA' \<le> MAX_TIMESTAMP \<longrightarrow>
            (\<forall>i. minimal_sync_interval s = Some i \<longrightarrow>
               MIN_TIMESTAMP * 1000000 \<le> timestamp_seconds nowA' * 1000000 + i
               \<and> timestamp_seconds nowA' * 1000000 + i \<le> MAX_TIMESTAMP * 1000000 + 999999) \<longrightarrow>
            fst (sync nowB nowB' transportB guildB (snd (sync nowA nowA' transportA guildA s)))
              = Inr []
            \<and> transport_calls
                (snd (sync nowB nowB' transportB guildB (snd (sync nowA nowA' transportA guildA s))))
              \<le> Suc (transport_calls s))
       \<and> (\<forall>e. fst (should_sync nowA s) = Inr True \<longrightarrow> transportA guildA = Inl e \<longrightarrow>
            nowA \<le> nowB \<longrightarrow>
            fst (sync nowA nowA' transportA guildA s) = Inl e
            \<and> transport_calls
                (snd (sync nowB nowB' transportB guildB (snd (sync nowA nowA' transportA guildA s))))
              = Suc (Suc (transport_calls s)))"
proof (intro conjI allI impI)
  fix rA
  let ?sA = "snd (sync nowA nowA' transportA guildA s)"
  assume ret: "fst (sync nowA nowA' transportA guildA s) = Inr rA"
    and gate: "fst (can_sync nowB s) = Inr True \<longrightarrow> fst (can_sync nowA s) = Inr True"
    and lo: "MIN_TIMESTAMP \<le> timestamp_seconds nowA'"
    and hi: "timestamp_seconds nowA' \<le> MAX_TIMESTAMP"
    and sum: "\<forall>i. minimal_sync_interval s = Some i \<longrightarrow>
               MIN_TIMESTAMP * 1000000 \<le> timestamp_seconds nowA' * 1000000 + i
               \<and> timestamp_seconds nowA' * 1000000 + i \<le> MAX_TIMESTAMP * 1000000 + 999999"
  have first: "sync nowA nowA' transportA guildA s = (Inr rA, ?sA)"
    using ret by (cases "sync nowA nowA' transportA guildA s") simp
  note tw = sync_second_call [OF c first gate, of nowB' transportB guildB]
  have nr: "\<exists>b. fst (can_sync nowB ?sA) = Inr b"
  proof (cases "fst (should_sync nowA s)")
    case (Inl e)
    then show ?thesis using first by (simp add: sync_gate_raises)
  next
    case (Inr b)
    show ?thesis
    proof (cases b)
      case True
      then have need: "fst (should_sync nowA s) = Inr True" using Inr by simp
      note after = sync_after_success [OF c need first, of nowB nowB' transportB guildB]
      have cA: "config ?sA = Some \<lparr>last_timestamp = Some (timestamp_seconds nowA'),
                                   last_hex = Some (fst (generate_hex None s))\<rparr>"
        using after by simp
      have iA: "minimal_sync_interval ?sA = minimal_sync_interval s"
      proof -
        obtain r where ok: "transportA guildA = Inr r"
          using first sync_transport_failure_state [where transport = transportA and guild = guildA,
            OF c need, of _ nowA']
          by (cases "transportA guildA") auto
        let ?s2 = "s\<lparr>log := log (snd (should_sync nowA s)),
                     current_hex := Some (fst (generate_hex None s)),
                     transport_calls := Suc (transport_calls s)\<rparr>"
        have c2: "config ?s2 = Some c" using c by simp
        obtain u s4 where up: "SaveConfig_update nowA' (fst (generate_hex None s)) ?s2 = (u, s4)"
          by (cases "SaveConfig_update nowA' (fst (generate_hex None s)) ?s2")
        have sA: "u = Inr () \<and> ?sA = s4\<lparr>log := log s4 @ [InfoSynced (length r)]\<rparr>"
          using first
          unfolding sync_synced [where transport = transportA and guild = guildA, OF c need ok] up
          by (cases u) auto
        have "minimal_sync_interval s4 = minimal_sync_interval ?s2"
          using SaveConfig_update_success [OF c2, of nowA' "fst (generate_hex None s)" "()" s4] up sA
          by simp
        then show ?thesis using sA by simp
      qed
      show ?thesis
        by (rule can_sync_in_range [OF cA]) (use lo hi sum iA in simp)
    next
      case False
      then have no: "fst (should_sync nowA s) = Inr False" using Inr by simp
      have sA: "?sA = snd (should_sync nowA s)"
        by (simp add: sync_not_needed [OF no])
      have fr: "?sA = s\<lparr>log := log ?sA, current_hex := current_hex ?sA\<rparr>"
        unfolding sA by (rule should_sync_frame [OF c])
      have cA: "config ?sA = Some c" by (subst fr) (simp add: c)
      have g2: "fst (can_sync nowB ?sA) = fst (can_sync nowB s)"
        by (rule can_sync_cong [OF c cA]) (subst fr, simp)
      have "\<exists>b. fst (can_sync nowA s) = Inr b"
        using no unfolding should_sync_cached [OF c]
        by (cases "fst (can_sync nowA s)") auto
      then obtain b' where b': "fst (can_sync nowA s) = Inr b'" by blast
      have "\<exists>b. fst (can_sync nowB s) = Inr b"
      proof (cases "fst (can_sync nowB s)")
        case (Inl a)
        then have "fst (can_sync nowA s) = Inl a"
          using can_sync_raise_indep [OF c, of nowB a nowA] by simp
        then show ?thesis using b' by simp
      next
        case (Inr b)
        then show ?thesis by blast
      qed
      then show ?thesis unfolding g2 .
    qed
  qed
  show "fst (sync nowB nowB' transportB guildB ?sA) = Inr []"
    using tw nr by auto
  show "transport_calls (snd (sync nowB nowB' transportB guildB ?sA)) \<le> Suc (transport_calls s)"
    using tw by simp
next
  fix e
  let ?sA = "snd (sync nowA nowA' transportA guildA s)"
  assume need: "fst (should_sync nowA s) = Inr True"
    and fail: "transportA guildA = Inl e"
    and later: "nowA \<le> nowB"
  note af = should_sync_after_failure [where transport = transportA and guild = guildA,
              OF c need fail later, of nowA']
  show "fst (sync nowA nowA' transportA guildA s) = Inl e"
    by (simp add: sync_transport_failure_state
          [where transport = transportA and guild = guildA, OF c need fail])
  have cA: "config ?sA = Some c" using af by simp
  have nA: "fst (should_sync nowB ?sA) = Inr True" using af by simp
  show "transport_calls (snd (sync nowB nowB' transportB guildB ?sA)) = Suc (Suc (transport_calls s))"
    using sync_invokes_transport [OF cA nA, of nowB' transportB guildB] af by simp
qed

lemma fresh_tree_store:
  "path_cache (fresh_tree i cs) = Some (''bot'', ''discord_py_autosync_config.json'')"
  "write_denied (fs (fresh_tree i cs)) = {}"
  by (simp_all add: fresh_tree_def init_empty_fs)

lemma timestamp_seconds_example: "timestamp_seconds 1700000000000000 = 1700000000"
  by (simp add: timestamp_seconds_def)

lemma first_sync_fresh:
  "sync 1700000000000000 1700000000000000 (\<lambda>_. Inr r) g (fresh_tree i cs) =
     (Inr r,
      (fresh_tree i cs)
        \<lparr>log := log (snd (should_sync 1700000000000000 (fresh_tree i cs)))
               @ [InfoUpdating (fst (generate_hex None (fresh_tree i cs))), InfoSynced (length r)],
         current_hex := Some (fst (generate_hex None (fresh_tree i cs))),
         transport_calls := Suc 0,
         config := Some \<lparr>last_timestamp = Some 1700000000,
                         last_hex = Some (fst (generate_hex None (fresh_tree i cs)))\<rparr>,
         fs := (fs (fresh_tree i cs))\<lparr>files := (files (fs (fresh_tree i cs)))
                 ((''bot'', ''discord_py_autosync_config.json'')
                    \<mapsto> json_encode \<lparr>last_timestamp = Some 1700000000,
                                      last_hex = Some (fst (generate_hex None (fresh_tree i cs)))\<rparr>)\<rparr>\<rparr>)"
proof -
  have ok: "(\<lambda>_::nat option. Inr r :: error + string list) g = Inr r" by simp
  have w: "(''bot'', ''discord_py_autosync_config.json'') \<notin> write_denied (fs (fresh_tree i cs))"
    by (simp add: fresh_tree_store)
  show ?thesis
    using sync_success [where transport = "\<lambda>_. Inr r" and guild = g
              and now = 1700000000000000 and now' = 1700000000000000
              and s = "fresh_tree i cs",
            OF fresh_tree_config should_sync_fresh ok fresh_tree_store(1) w]
    by (simp only: timestamp_seconds_example fresh_tree_fields)
qed

theorem sync_twice_witness:
  "fst (sync 1700000100000000 1700000100000000 (\<lambda>_. Inr [''ban'']) None
         (snd (sync 1700000000000000 1700000000000000 (\<lambda>_. Inr [''ban'']) None
                 (fresh_tree MISSING [ban])))) = Inr []
   \<and> transport_calls
        (snd (sync 1700000100000000 1700000100000000 (\<lambda>_. Inr [''ban'']) None
           (snd (sync 1700000000000000 1700000000000000 (\<lambda>_. Inr [''ban'']) None
                   (fresh_tree MISSING [ban]))))) \<le> 1
   \<and> fst (sync 1700000000000000 1700000000000000 (\<lambda>_. Inl (TransportError ''503'')) None
          (fresh_tree MISSING [ban])) = Inl (TransportError ''503'')
   \<and> transport_calls
        (snd (sync 1700000100000000 1700000100000000 (\<lambda>_. Inr [''ban'']) None
           (snd (sync 1700000000000000 1700000000000000 (\<lambda>_. Inl (TransportError ''503'')) None
                   (fresh_tree MISSING [ban]))))) = 2"
proof -
  let ?s = "fresh_tree MISSING [ban]"
  let ?ok = "\<lambda>_::nat option. Inr [''ban''] :: error + string list"
  let ?ko = "\<lambda>_::nat option. Inl (TransportError ''503'') :: error + string list"
  note th1 = sync_twice [OF fresh_tree_config [of MISSING "[ban]"], where nowA = 1700000000000000 and nowA' = 1700000000000000
               and transportA = ?ok and guildA = None
               and nowB = 1700000100000000 and nowB' = 1700000100000000
               and transportB = ?ok and guildB = None]
  note th2 = sync_twice [OF fresh_tree_config [of MISSING "[ban]"], where nowA = 1700000000000000 and nowA' = 1700000000000000
               and transportA = ?ko and guildA = None
               and nowB = 1700000100000000 and nowB' = 1700000100000000
               and transportB = ?ok and guildB = None]
  have ret: "fst (sync 1700000000000000 1700000000000000 ?ok None ?s) = Inr [''ban'']"
    by (simp add: first_sync_fresh)
  have gate: "fst (can_sync 1700000100000000 ?s) = Inr True
                \<longrightarrow> fst (can_sync 1700000000000000 ?s) = Inr True"
    by (simp add: can_sync_no_prior [OF fresh_tree_config])
  have lo: "MIN_TIMESTAMP \<le> timestamp_seconds 1700000000000000"
    by (simp add: timestamp_seconds_example MIN_TIMESTAMP_def)
  have hi: "timestamp_seconds 1700000000000000 \<le> MAX_TIMESTAMP"
    by (simp add: timestamp_seconds_example MAX_TIMESTAMP_def)
  have sum: "\<forall>i. minimal_sync_interval ?s = Some i \<longrightarrow>
               MIN_TIMESTAMP * 1000000 \<le> timestamp_seconds 1700000000000000 * 1000000 + i
               \<and> timestamp_seconds 1700000000000000 * 1000000 + i
                   \<le> MAX_TIMESTAMP * 1000000 + 999999"
    by (simp add: timestamp_seconds_example fresh_tree_fields interval_of_def
          DEFAULT_MINIMAL_SYNC_INTERVAL_SECONDS_def MIN_TIMESTAMP_def MAX_TIMESTAMP_def)
  have p1: "fst (sync 1700000100000000 1700000100000000 ?ok None
                  (snd (sync 1700000000000000 1700000000000000 ?ok None ?s))) = Inr []
          \<and> transport_calls
               (snd (sync 1700000100000000 1700000100000000 ?ok None
                  (snd (sync 1700000000000000 1700000000000000 ?ok None ?s))))
             \<le> Suc (transport_calls ?s)"
    using th1 ret gate lo hi sum by blast
  have need: "fst (should_sync 1700000000000000 ?s) = Inr True"
    by (rule should_sync_fresh)
  have fail: "?ko None = Inl (TransportError ''503'')" by simp
  have later: "(1700000000000000::int) \<le> 1700000100000000" by simp
  have p2: "fst (sync 1700000000000000 1700000000000000 ?ko None ?s) = Inl (TransportError ''503'')
          \<and> transport_calls
               (snd (sync 1700000100000000 1700000100000000 ?ok None
                  (snd (sync 1700000000000000 1700000000000000 ?ko None ?s))))
             = Suc (Suc (transport_calls ?s))"
    using th2 need fail later by blast
  show ?thesis
    using p1 p2 by (simp add: fresh_tree_fields)
qed

text \<open>
  When the remote call of the first \<^verbatim>\<open>sync\<close> fails, nothing is recorded and the second call, one
  second later, invokes the remote call again: two invocations, and a result that is not
  empty.
\<close>

theorem sync_retry_counterexample:
  "fst (sync 1700000000000000 1700000000000000 (\<lambda>_. Inl (TransportError ''503'')) None
          (fresh_tree MISSING [ban])) = Inl (TransportError ''503'')
   \<and> fst (sync 1700000001000000 1700000001000000 (\<lambda>_. Inr [''ban'']) None
         (snd (sync 1700000000000000 1700000000000000 (\<lambda>_. Inl (TransportError ''503'')) None
                 (fresh_tree MISSING [ban])))) = Inr [''ban'']
   \<and> transport_calls
        (snd (sync 1700000001000000 1700000001000000 (\<lambda>_. Inr [''ban'']) None
           (snd (sync 1700000000000000 1700000000000000 (\<lambda>_. Inl (TransportError ''503'')) None
                   (fresh_tree MISSING [ban]))))) = 2"
proof -
  let ?s = "fresh_tree MISSING [ban]"
  let ?c = "\<lparr>last_timestamp = None, last_hex = None\<rparr>"
  let ?sA = "?s\<lparr>log := log (snd (should_sync 1700000000000000 ?s)),
               current_hex := current_hex (snd (should_sync 1700000000000000 ?s)),
               transport_calls := Suc (transport_calls ?s)\<rparr>"
  have fail: "(\<lambda>_::nat option. Inl (TransportError ''503'') :: error + string list) None
                = Inl (TransportError ''503'')"
    by simp
  have e1: "sync 1700000000000000 1700000000000000 (\<lambda>_. Inl (TransportError ''503'')) None ?s
              = (Inl (TransportError ''503''), ?sA)"
    by (rule sync_transport_failure_state
          [where transport = "\<lambda>_. Inl (TransportError ''503'')" and guild = None,
           OF fresh_tree_config should_sync_fresh fail])
  have c1: "config ?sA = Some ?c" by (simp add: fresh_tree_config)
  have p1: "path_cache ?sA = Some (''bot'', ''discord_py_autosync_config.json'')"
    by (simp add: fresh_tree_store)
  have w1: "(''bot'', ''discord_py_autosync_config.json'') \<notin> write_denied (fs ?sA)"
    by (simp add: fresh_tree_store)
  have ok: "(\<lambda>_::nat option. Inr [''ban''] :: error + string list) None = Inr [''ban'']" by simp
  note e2 = sync_success [where transport = "\<lambda>_. Inr [''ban'']" and guild = None
              and now = 1700000001000000 and now' = 1700000001000000,
              OF c1 should_sync_absent [OF c1] ok p1 w1]
  show ?thesis
    unfolding e1 snd_conv fst_conv e2
    by (simp add: fresh_tree_fields)
qed

lemma scoped_tree_fields:
  "all_commands scoped_tree = (\<lambda>g. if g = Some 7 then [kick] else [ban])"
  "translator scoped_tree = False"
  "minimal_sync_interval scoped_tree = None"
  "transport_calls scoped_tree = 0"
  "config scoped_tree = Some \<lparr>last_timestamp = None, last_hex = None\<rparr>"
  "path_cache scoped_tree = Some (''bot'', ''discord_py_autosync_config.json'')"
  "write_denied (fs scoped_tree) = {}"
  by (simp_all add: scoped_tree_def init_fields init_empty_fs interval_of_def)

lemma sort_key_single: "sort_key f [a] = [a]"
  by simp

lemma hex_ban:
  "xxh64_hexdigest (msgpack_encode_list [to_dict ban]) 0 = ''13994a87465cd2f2''"
  by code_simp

lemma hex_kick:
  "xxh64_hexdigest (msgpack_encode_list [to_dict kick]) 0 = ''fc74fb7fab31b6ac''"
  by code_simp

lemma scoped_tree_hex:
  "fst (generate_hex None scoped_tree) = ''13994a87465cd2f2''"
  "fst (generate_hex (Some 7) scoped_tree) = ''fc74fb7fab31b6ac''"
  by (simp_all only: generate_hex_fst scoped_tree_fields sort_key_single if_False if_True
        list.map hex_ban hex_kick option.distinct refl simp_thms)

lemma should_sync_ignores_guild_commands:
  assumes c: "config s = Some c" and g: "cmds None = all_commands s None"
  shows "fst (should_sync now (s\<lparr>all_commands := cmds\<rparr>)) = fst (should_sync now s)"
proof -
  have c': "config (s\<lparr>all_commands := cmds\<rparr>) = Some c" using c by simp
  have gate: "fst (can_sync now (s\<lparr>all_commands := cmds\<rparr>)) = fst (can_sync now s)"
    by (rule can_sync_cong [OF c c']) simp
  have hex: "fst (generate_hex None (s\<lparr>all_commands := cmds\<rparr>)) = fst (generate_hex None s)"
    by (simp add: generate_hex_fst g)
  show ?thesis
    unfolding should_sync_cached [OF c] should_sync_cached [OF c'] gate hex by simp
qed

text \<open>
  Claim C8. The store keeps one fingerprint and timestamp pair for all scopes, and the
  fingerprint that \<^verbatim>\<open>sync\<close> records is \<^verbatim>\<open>self.current_hex\<close>, the fingerprint of the global command set
  that \<^verbatim>\<open>should_sync\<close> computed with \<^verbatim>\<open>generate_hex()\<close>, not \<^verbatim>\<open>generate_hex(guild=guild)\<close>. On a tree
  with the global command \<^verbatim>\<open>ban\<close> and the command \<^verbatim>\<open>kick\<close> in guild 7, a sync of guild 7 records the
  fingerprint of the global command set, and a later sync of the global scope, which was never
  synced, returns the empty list without a remote call. By \<open>should_sync_ignores_guild_commands\<close>
  the decision never depends on the commands of a guild.
\<close>

theorem guild_sync_overwrites_global_pair:
  "fst (sync 1700000000000000 1700000000000000 (\<lambda>_. Inr [''kick'']) (Some 7) scoped_tree)
     = Inr [''kick'']
   \<and> fst (generate_hex (Some 7) scoped_tree) = ''fc74fb7fab31b6ac''
   \<and> fst (generate_hex None scoped_tree) = ''13994a87465cd2f2''
   \<and> config (snd (sync 1700000000000000 1700000000000000 (\<lambda>_. Inr [''kick'']) (Some 7)
                    scoped_tree))
     = Some \<lparr>last_timestamp = Some 1700000000, last_hex = Some ''13994a87465cd2f2''\<rparr>
   \<and> fst (sync 1700000900000000 1700000900000000 (\<lambda>_. Inr [''ban'']) None
         (snd (sync 1700000000000000 1700000000000000 (\<lambda>_. Inr [''kick'']) (Some 7)
                 scoped_tree))) = Inr []
   \<and> transport_calls
        (snd (sync 1700000900000000 1700000900000000 (\<lambda>_. Inr [''ban'']) None
           (snd (sync 1700000000000000 1700000000000000 (\<lambda>_. Inr [''kick'']) (Some 7)
                   scoped_tree)))) = 1"
proof -
  let ?sA = "snd (sync 1700000000000000 1700000000000000 (\<lambda>_. Inr [''kick'']) (Some 7)
                   scoped_tree)"
  have need: "fst (should_sync 1700000000000000 scoped_tree) = Inr True"
    by (rule should_sync_absent) (simp add: scoped_tree_fields)
  have ok: "(\<lambda>_::nat option. Inr [''kick''] :: error + string list) (Some 7) = Inr [''kick'']"
    by simp
  have w: "(''bot'', ''discord_py_autosync_config.json'') \<notin> write_denied (fs scoped_tree)"
    by (simp add: scoped_tree_fields)
  note e = sync_success [where transport = "\<lambda>_. Inr [''kick'']" and guild = "Some 7"
             and now = 1700000000000000 and now' = 1700000000000000 and s = scoped_tree,
             OF scoped_tree_fields(5) need ok scoped_tree_fields(6) w]
  have first: "sync 1700000000000000 1700000000000000 (\<lambda>_. Inr [''kick'']) (Some 7) scoped_tree
                 = (Inr [''kick''], ?sA)"
    by (simp add: e)
  note after = sync_after_success [where nowB = 1700000900000000 and nowB' = 1700000900000000
                 and transportB = "\<lambda>_. Inr [''ban'']" and guildB = None,
                 OF scoped_tree_fields(5) need first]
  have cA: "config ?sA = Some \<lparr>last_timestamp = Some 1700000000,
                                last_hex = Some ''13994a87465cd2f2''\<rparr>"
    using after by (simp add: timestamp_seconds_example scoped_tree_hex)
  have iA: "minimal_sync_interval ?sA = None"
    by (simp add: e scoped_tree_fields)
  have gB: "fst (can_sync 1700000900000000 ?sA) = Inr True"
    by (rule can_sync_no_interval [OF cA iA]) (simp add: MIN_TIMESTAMP_def MAX_TIMESTAMP_def)
  have tA: "transport_calls ?sA = 1"
    using after by (simp add: scoped_tree_fields)
  have f1: "fst (sync 1700000000000000 1700000000000000 (\<lambda>_. Inr [''kick'']) (Some 7) scoped_tree)
              = Inr [''kick'']"
    by (simp add: e)
  have r2: "fst (sync 1700000900000000 1700000900000000 (\<lambda>_. Inr [''ban'']) None ?sA) = Inr []"
    using after unfolding gB by simp
  have t2: "transport_calls
              (snd (sync 1700000900000000 1700000900000000 (\<lambda>_. Inr [''ban'']) None ?sA)) = 1"
    using after unfolding tA by simp
  show ?thesis
    by (intro conjI) (rule f1 scoped_tree_hex cA r2 t2)+
qed

section \<open>The debugger\<close>

lemma check_command_Inl_iff:
  "(\<exists>e. check_command d c = Inl e) \<longleftrightarrow>
     is_command_guild_installable c \<and> \<not> is_bot_guild_installable d
   \<or> is_command_user_installable c \<and> \<not> is_bot_user_installable d
   \<or> is_command_guild_usable c \<and> \<not> is_bot_guild_usable d
   \<or> is_command_dm_usable c \<and> \<not> is_bot_dm_usable d
   \<or> is_command_private_channel_usable c \<and> \<not> is_bot_private_channel_usable d"
  by (simp add: check_command_def)

lemma check_commands_first:
  assumes "\<forall>x \<in> set pre. \<exists>dc. check_command d x = Inr dc"
      and "check_command d c = Inl e"
  shows "check_commands d (pre @ c # post) = Inl e"
  using assms
  by (induction pre) auto

lemma check_commands_all:
  "check_commands d cs = Inr dcs \<Longrightarrow> \<forall>x \<in> set cs. \<exists>dc. check_command d x = Inr dc"
  by (induction cs arbitrary: dcs) (auto split: sum.splits)

lemma store_application_outputs:
  "debug_info_json (snd (store_application cl d)) = debug_info_json d"
  "printed (snd (store_application cl d)) = printed d"
  by (simp_all add: store_application_def split: option.splits sum.splits)

lemma check_error_no_report:
  assumes "fst (check cl guild d) = Inl e" and "e \<noteq> FileError"
  shows "debug_info_json (snd (check cl guild d)) = debug_info_json d
       \<and> printed (snd (check cl guild d)) = printed d"
proof -
  obtain r d1 where sa: "store_application cl d = (r, d1)" by (cases "store_application cl d")
  have o: "debug_info_json d1 = debug_info_json d" "printed d1 = printed d"
    using store_application_outputs [of cl d] sa by simp_all
  show ?thesis
    using assms unfolding check_def sa
    by (auto simp: o Let_def split: sum.splits if_splits)
qed

text \<open>
  Claim C9. When the application is stored, the guild (if one is given) is known and has the
  bot installed, and the commands of the scope are \<open>pre @ c # post\<close> where every command of
  \<open>pre\<close> passes \<^verbatim>\<open>check_command\<close> and \<open>c\<close> is the first that does not, \<^verbatim>\<open>check\<close> raises the error of
  \<open>c\<close>, and neither \<^verbatim>\<open>debug_info.json\<close> is written nor anything printed. By
  \<open>check_command_Inl_iff\<close> a command fails exactly when it declares a capability that the bot
  does not have; by \<open>check_error_no_report\<close> only an \<^verbatim>\<open>OSError\<close> can leave \<^verbatim>\<open>check\<close> after the file was opened.
\<close>

theorem check_first_incompatible:
  assumes app: "store_application cl d = (Inr a, d1)"
      and g: "(case guild of None \<Rightarrow> Inr () | Some x \<Rightarrow> check_guild cl a x) = Inr ()"
      and cmds: "get_commands cl (map_option id_of guild) = pre @ c # post"
      and ok: "\<forall>x \<in> set pre. \<exists>dc. check_command d1 x = Inr dc"
      and bad: "check_command d1 c = Inl e"
  shows "fst (check cl guild d) = Inl e
       \<and> debug_info_json (snd (check cl guild d)) = debug_info_json d
       \<and> printed (snd (check cl guild d)) = printed d"
proof -
  have "check_commands d1 (pre @ c # post) = Inl e"
    by (rule check_commands_first [OF ok bad])
  then have "check cl guild d = (Inl e, d1)"
    unfolding check_def app by (simp add: g cmds Let_def)
  then show ?thesis
    using store_application_outputs [of cl d] app by simp
qed

theorem check_first_incompatible_witness:
  "fst (check example_client None example_debugger) = Inl (ValueError (UserInstallable ''profile''))
   \<and> debug_info_json (snd (check example_client None example_debugger)) = NoReportFile
   \<and> printed (snd (check example_client None example_debugger)) = []"
proof -
  let ?d1 = "example_debugger\<lparr>application := Some example_app,
               app_guild_installable := None, app_user_installable := None\<rparr>"
  have app: "store_application example_client example_debugger = (Inr example_app, ?d1)"
    by (simp add: store_application_def example_client_def example_debugger_def example_app_def)
  have g: "(case None :: guild_arg option of None \<Rightarrow> Inr ()
            | Some x \<Rightarrow> check_guild example_client example_app x) = Inr ()"
    by simp
  have cmds: "get_commands example_client (map_option id_of (None :: guild_arg option))
                = [ping] @ profile # [settings]"
    by (simp add: example_client_def)
  have ok: "\<forall>x \<in> set [ping]. \<exists>dc. check_command ?d1 x = Inr dc"
    by (simp add: check_command_def ping_def example_debugger_def py_bool_def
          is_command_guild_installable_def is_command_user_installable_def
          is_command_guild_usable_def is_command_dm_usable_def
          is_command_private_channel_usable_def
          is_bot_guild_installable_def is_bot_user_installable_def is_bot_guild_usable_def
          is_bot_dm_usable_def is_bot_private_channel_usable_def)
  have bad: "check_command ?d1 profile = Inl (ValueError (UserInstallable ''profile''))"
    by (simp add: check_command_def profile_def example_debugger_def py_bool_def
          is_command_guild_installable_def is_command_user_installable_def
          is_command_guild_usable_def is_command_dm_usable_def
          is_command_private_channel_usable_def
          is_bot_guild_installable_def is_bot_user_installable_def is_bot_guild_usable_def
          is_bot_dm_usable_def is_bot_private_channel_usable_def)
  show ?thesis
    using check_first_incompatible [OF app g cmds ok bad]
    by (simp add: example_debugger_def)
qed

end
